theory Spec2Isabelle
  imports Complex_Main
begin

section \<open>Errors\<close>

text \<open>
  Every error return of the Go functions embedded below is a value of this type. The
  Go code builds its errors with \<open>fmt.Errorf\<close>; the constructor records which return
  statement was taken and the identifier the message carries.
\<close>

datatype error =
    InvalidSizeFormat string
  | ReadFailed
  | UnmarshalFailed
  | TaskNotFound string
  | LaunchFailed
  | ValueOutOfRange string

section \<open>The size-string parser (\<open>parseFileSize\<close>)\<close>

text \<open>
  \<open>parseFileSize\<close> removes the spaces of its argument, matches the result against
  \<^verbatim>\<open>^(\d+(?:\.\d+)?)([KkMmGgTtPp]?[Bb]?)$\<close>, parses the first group as a number,
  upper-cases the second group (appending \<open>B\<close> to a single letter), multiplies by the
  unit's factor and converts to \<open>int64\<close>.

  The number and the factor are \<open>float64\<close> values in the source. A finite \<open>float64\<close> is
  modelled by the rational number it stands for; \<open>strconv.ParseFloat\<close> is the correctly
  rounded conversion of the numeral (to the nearest \<open>float64\<close>, ties to even) and fails
  with a range error when the rounded value is beyond the largest \<open>float64\<close>. All values
  here are non-negative.
\<close>

definition isDigit :: "char \<Rightarrow> bool" where
  "isDigit c = (c \<in> set ''0123456789'')"

definition digitVal :: "char \<Rightarrow> nat" where
  "digitVal c = (case map_of (zip ''0123456789'' [0, 1, 2, 3, 4, 5, 6, 7, 8, 9]) c of
                   Some d \<Rightarrow> d | None \<Rightarrow> 0)"

text \<open>The value of a string of decimal digits, most significant digit first.\<close>

definition decVal :: "string \<Rightarrow> nat" where
  "decVal ds = foldl (\<lambda>a c. 10 * a + digitVal c) 0 ds"

text \<open>\<open>strings.ToUpper\<close> on ASCII letters.\<close>

definition toUpperChar :: "char \<Rightarrow> char" where
  "toUpperChar c =
     (case map_of (zip ''abcdefghijklmnopqrstuvwxyz'' ''ABCDEFGHIJKLMNOPQRSTUVWXYZ'') c of
        Some u \<Rightarrow> u | None \<Rightarrow> c)"

definition ToUpper :: "string \<Rightarrow> string" where
  "ToUpper s = map toUpperChar s"

text \<open>
  The regular expression, as a deterministic matcher. Each repetition of the pattern is
  followed by something a digit cannot match, so the greedy match is the only one. The
  result is the pair of submatches: the integer digits, the fraction digits (empty when
  group \<open>(?:\.\d+)?\<close> did not take part) and the unit.
\<close>

definition sizeRegex :: "string \<Rightarrow> (string \<times> string \<times> string) option" where
  "sizeRegex s =
     (let ip = takeWhile isDigit s; r1 = dropWhile isDigit s in
      if ip = [] then None
      else
        let (fp, r2) =
              (case r1 of
                 [] \<Rightarrow> ([], r1)
               | c # r \<Rightarrow>
                   if c = CHR ''.'' \<and> takeWhile isDigit r \<noteq> []
                   then (takeWhile isDigit r, dropWhile isDigit r)
                   else ([], r1));
            (p, r3) =
              (case r2 of
                 [] \<Rightarrow> ([], r2)
               | c # r \<Rightarrow> if c \<in> set ''KkMmGgTtPp'' then ([c], r) else ([], r2));
            (b, r4) =
              (case r3 of
                 [] \<Rightarrow> ([], r3)
               | c # r \<Rightarrow> if c \<in> set ''Bb'' then ([c], r) else ([], r3))
        in if r4 = [] then Some (ip, fp, p @ b) else None)"

text \<open>
  A non-negative \<open>float64\<close>: a finite value or \<open>+Inf\<close>. \<open>ilog2 n\<close> is the position of the
  highest bit of \<open>n\<close>, and \<open>roundHalfEven n d\<close> is the integer nearest to \<open>n / d\<close>, the even
  one of two that are equally near.
\<close>

datatype float64 = Finite rat | PosInf

fun ilog2 :: "nat \<Rightarrow> nat" where
  "ilog2 n = (if n < 2 then 0 else Suc (ilog2 (n div 2)))"

declare ilog2.simps [simp del]

definition roundHalfEven :: "nat \<Rightarrow> nat \<Rightarrow> nat" where
  "roundHalfEven n d =
     (let q = n div d; r = n mod d
      in if 2 * r < d then q
         else if d < 2 * r then q + 1
         else if even q then q else q + 1)"

text \<open>
  The \<open>float64\<close> nearest to \<open>num / den\<close> (for \<open>den > 0\<close>). With \<open>e\<close> the binary exponent of
  the quotient (\<open>2^e \<le> num / den < 2^(e+1)\<close>), the quotient is scaled by \<open>2^s\<close>, where
  \<open>s = e - 52\<close> for a normal number and \<open>s = -1074\<close> for a subnormal one, rounded to an
  integer of at most 53 bits and scaled back; a result of \<open>2^1024\<close> or more is \<open>+Inf\<close>.
\<close>

definition roundFloat64 :: "nat \<Rightarrow> nat \<Rightarrow> float64" where
  "roundFloat64 num den =
     (if num = 0 then Finite 0
      else
        let e0 = int (ilog2 num) - int (ilog2 den);
            e = (if 2 ^ nat e0 * den \<le> 2 ^ nat (- e0) * num then e0 else e0 - 1);
            s = max (e - 52) (- 1074);
            mant = roundHalfEven (num * 2 ^ nat (- s)) (den * 2 ^ nat s);
            v = of_nat mant * 2 ^ nat s / 2 ^ nat (- s)
        in if 2 ^ 1024 \<le> v then PosInf else Finite v)"

text \<open>
  \<open>strconv.ParseFloat(matches[1], 64)\<close> on the integer digits \<open>ip\<close> and the fraction digits
  \<open>fp\<close> of the numeral, whose value is \<open>decVal (ip @ fp) / 10 ^ length fp\<close>: the rounded
  value, or the range error that \<open>parseFileSize\<close> returns.
\<close>

definition ParseFloat :: "string \<Rightarrow> string \<Rightarrow> error + rat" where
  "ParseFloat ip fp =
     (case roundFloat64 (decVal (ip @ fp)) (10 ^ length fp) of
        PosInf \<Rightarrow> Inl (ValueOutOfRange (if fp = [] then ip else ip @ ''.'' @ fp))
      | Finite v \<Rightarrow> Inr v)"

definition multiplier :: "string \<Rightarrow> rat" where
  "multiplier unit =
     (if unit = ''B'' then 1
      else if unit = ''KB'' then 1024
      else if unit = ''MB'' then 1024 * 1024
      else if unit = ''GB'' then 1024 * 1024 * 1024
      else if unit = ''TB'' then 1024 * 1024 * 1024 * 1024
      else if unit = ''PB'' then 1024 * 1024 * 1024 * 1024 * 1024
      else 1)"

text \<open>
  The \<open>float64\<close> product \<open>size * multiplier\<close>. Every multiplier is a power of two that is
  at least 1, so the exact product of a \<open>float64\<close> with it is a \<open>float64\<close> again unless it
  is \<open>2^1024\<close> or more, which gives \<open>+Inf\<close>.
\<close>

definition mulFloat64 :: "rat \<Rightarrow> rat \<Rightarrow> float64" where
  "mulFloat64 x m = (if 2 ^ 1024 \<le> x * m then PosInf else Finite (x * m))"

text \<open>
  The conversion \<open>int64(_)\<close> of a non-negative \<open>float64\<close>: the value truncated when it is
  below \<open>2^63\<close>. For a value that \<open>int64\<close> cannot hold Go leaves the result to the
  implementation; on amd64, the platform the application is built for, it is \<open>-2^63\<close>.
\<close>

definition toInt64 :: "float64 \<Rightarrow> int" where
  "toInt64 x =
     (case x of
        Finite v \<Rightarrow> (if \<lfloor>v\<rfloor> < 2 ^ 63 then \<lfloor>v\<rfloor> else - (2 ^ 63))
      | PosInf \<Rightarrow> - (2 ^ 63))"

definition parseFileSize :: "string \<Rightarrow> error + int" where
  "parseFileSize sizeStr0 =
     (let sizeStr = filter (\<lambda>c. c \<noteq> CHR '' '') sizeStr0 in
      case sizeRegex sizeStr of
        None \<Rightarrow> Inl (InvalidSizeFormat sizeStr)
      | Some (ip, fp, u) \<Rightarrow>
          (case ParseFloat ip fp of
             Inl err \<Rightarrow> Inl err
           | Inr sizeValue \<Rightarrow>
               let unit = (if u \<noteq> []
                           then (let up = ToUpper u in if length up = 1 then up @ ''B'' else up)
                           else ''B'')
               in Inr (toInt64 (mulFloat64 sizeValue (multiplier unit)))))"

text \<open>The unit spellings in upper case, each with the power of 1024 it stands for.\<close>

definition units :: "(string \<times> nat) list" where
  "units = [('''', 0), (''B'', 0), (''KB'', 1), (''MB'', 2), (''GB'', 3), (''TB'', 4), (''PB'', 5)]"

section \<open>The task stores\<close>

text \<open>
  Each domain keeps its tasks in one JSON file holding a list of records
  (\<open>download_progress.json\<close>, \<open>transcode_progress.json\<close>). Every operation reads the
  whole file with \<open>os.ReadFile\<close>, decodes it with \<open>json.Unmarshal\<close>, changes the list in
  memory and writes the whole list back. A file is modelled by what reading and decoding
  it gives: it is missing, it cannot be read, its content does not decode, or it decodes
  to a list of tasks. Writing is taken to succeed; an operation returns the lists it
  wrote, in order.
\<close>

datatype 'a storeFile = Missing | Unreadable | Undecodable | Content "'a list"

fun load :: "'a storeFile \<Rightarrow> error + 'a list" where
  "load Missing = Inl ReadFailed"
| "load Unreadable = Inl ReadFailed"
| "load Undecodable = Inl UnmarshalFailed"
| "load (Content l) = Inr l"

text \<open>The file after an operation that wrote the lists \<open>ws\<close>: the last one written.\<close>

definition after :: "'a storeFile \<Rightarrow> 'a list list \<Rightarrow> 'a storeFile" where
  "after f ws = (if ws = [] then f else Content (last ws))"

text \<open>The list an enqueue operation starts from: empty when the file does not load.\<close>

definition tasksOf :: "'a storeFile \<Rightarrow> 'a list" where
  "tasksOf f = (case load f of Inl e \<Rightarrow> [] | Inr l \<Rightarrow> l)"

text \<open>
  The loops of the form \<open>for i, t := range l { if P t { l[i] = g t; break } }\<close>:
  the first element that satisfies \<open>P\<close> is replaced.
\<close>

fun updFirst :: "('a \<Rightarrow> bool) \<Rightarrow> ('a \<Rightarrow> 'a) \<Rightarrow> 'a list \<Rightarrow> 'a list" where
  "updFirst P g [] = []"
| "updFirst P g (t # ts) = (if P t then g t # ts else t # updFirst P g ts)"

subsection \<open>Download tasks\<close>

text \<open>
  A download task is a \<open>map[string]interface{}\<close>: a map from field names to JSON values.
  Times are strings in RFC 3339 format there; \<open>time.Now().Format(time.RFC3339)\<close> is the
  parameter \<open>now\<close> of the operations and \<open>time.Parse(time.RFC3339, _)\<close> is their
  parameter \<open>parseTime\<close>, which gives the instant as an integer.
\<close>

datatype jval = JNull | JBool bool | JNum int | JStr string | JArr "jval list"

type_synonym dtask = "string \<rightharpoonup> jval"

text \<open>\<open>status, ok := task["status"].(string); ok && status == s\<close>\<close>

definition hasStatus :: "string \<Rightarrow> dtask \<Rightarrow> bool" where
  "hasStatus s task = (task ''status'' = Some (JStr s))"

text \<open>\<open>p["taskId"] == taskId\<close>, an interface value compared with a string.\<close>

definition hasTaskId :: "string \<Rightarrow> dtask \<Rightarrow> bool" where
  "hasTaskId taskId p = (p ''taskId'' = Some (JStr taskId))"

text \<open>The number of tasks in the active status of the download domain.\<close>

definition activeDownloads :: "dtask list \<Rightarrow> nat" where
  "activeDownloads l = length (filter (hasStatus ''downloading'') l)"

subsection \<open>Transcode tasks\<close>

text \<open>
  The struct \<open>TranscodeTask\<close>. A \<open>time.Time\<close> is an integer instant, \<open>Before\<close> is \<open><\<close>;
  \<open>Progress\<close> is a \<open>float64\<close>, a real number here.
\<close>

record TranscodeTask =
  TaskID :: string
  InputFile :: string
  OutputFile :: string
  Status :: string
  StartTime :: int
  EndTime :: int
  Progress :: real
  Speed :: string
  TimeRemaining :: string
  FFmpegCommand :: string
  PID :: int
  Error :: string
  VideoCodec :: string
  AudioCodec :: string
  Resolution :: string
  Bitrate :: string

definition activeTranscodes :: "TranscodeTask list \<Rightarrow> nat" where
  "activeTranscodes l = length (filter (\<lambda>t. Status t = ''transcoding'') l)"

section \<open>Starting a task\<close>

text \<open>
  \<open>startDownload\<close> locates the tool, launches the child process, then reads the store,
  marks the first task with the given id as downloading with the child's pid and writes
  the store; the monitoring goroutine it starts is \<open>monitorDownloadExit\<close> below. The
  parameter \<open>launch\<close> is the pid of the child, or \<open>None\<close> when the working directory, the
  tool, the pipe or the launch fails.
\<close>

definition startDownload :: "int option \<Rightarrow> dtask storeFile \<Rightarrow> string \<Rightarrow> error + dtask list" where
  "startDownload launch f taskId =
     (case launch of
        None \<Rightarrow> Inl LaunchFailed
      | Some pid \<Rightarrow>
          (case load f of
             Inl e \<Rightarrow> Inl e
           | Inr progressList \<Rightarrow>
               Inr (updFirst (hasTaskId taskId)
                      (\<lambda>p. p(''status'' \<mapsto> JStr ''downloading'', ''pid'' \<mapsto> JNum pid))
                      progressList)))"

text \<open>
  \<open>startTranscode\<close> reads the store, looks the task up, builds the encoder's arguments
  and launches it, then marks the task as transcoding with the child's pid and a new
  start time in the list it read, and writes that list.
\<close>

definition startTranscode ::
    "int option \<Rightarrow> int \<Rightarrow> TranscodeTask storeFile \<Rightarrow> string \<Rightarrow> error + TranscodeTask list" where
  "startTranscode launch now f taskID =
     (case load f of
        Inl e \<Rightarrow> Inl e
      | Inr transcodeTasks \<Rightarrow>
          if \<not> list_ex (\<lambda>t. TaskID t = taskID) transcodeTasks then Inl (TaskNotFound taskID)
          else
            (case launch of
               None \<Rightarrow> Inl LaunchFailed
             | Some pid \<Rightarrow>
                 Inr (updFirst (\<lambda>t. TaskID t = taskID)
                        (\<lambda>t. t\<lparr>Status := ''transcoding'', PID := pid, StartTime := now\<rparr>)
                        transcodeTasks)))"

section \<open>Promoting the next waiting task\<close>

text \<open>
  \<open>startNextWaitingTask\<close> returns nothing. It does nothing when the store cannot be
  loaded or a task is downloading; otherwise it starts the first waiting task of the
  list. The type assertions \<open>nextTask["taskId"].(string)\<close>, \<open>nextTask["magnetLink"].(string)\<close>
  and \<open>nextTask["outputDir"].(string)\<close> panic on a task without these strings.
  The result is the panic, if any, and the lists written.
\<close>

definition isStr :: "jval option \<Rightarrow> bool" where
  "isStr v = (case v of Some (JStr s) \<Rightarrow> True | _ \<Rightarrow> False)"

definition theStr :: "jval option \<Rightarrow> string" where
  "theStr v = (case v of Some (JStr s) \<Rightarrow> s | _ \<Rightarrow> [])"

datatype panic = Panic

definition startSelected :: "int option \<Rightarrow> dtask storeFile \<Rightarrow> dtask \<Rightarrow> panic option \<times> dtask list list" where
  "startSelected launch f task =
     (if isStr (task ''taskId'') \<and> isStr (task ''magnetLink'') \<and> isStr (task ''outputDir'')
      then (case startDownload launch f (theStr (task ''taskId'')) of
              Inl e \<Rightarrow> (None, [])
            | Inr l \<Rightarrow> (None, [l]))
      else (Some Panic, []))"

definition startNextWaitingTask :: "int option \<Rightarrow> dtask storeFile \<Rightarrow> panic option \<times> dtask list list" where
  "startNextWaitingTask launch f =
     (case load f of
        Inl e \<Rightarrow> (None, [])
      | Inr progressList \<Rightarrow>
          if list_ex (hasStatus ''downloading'') progressList then (None, [])
          else
            (case find (hasStatus ''waiting'') progressList of
               None \<Rightarrow> (None, [])
             | Some nextTask \<Rightarrow> startSelected launch f nextTask))"

text \<open>
  \<open>startNextTranscodeTask\<close>: the same for transcodes, returning the error of the load or
  of \<open>startTranscode\<close>. A first waiting task whose id is the empty string is not started.
\<close>

definition startNextTranscodeTask ::
    "int option \<Rightarrow> int \<Rightarrow> TranscodeTask storeFile \<Rightarrow> error option \<times> TranscodeTask list list" where
  "startNextTranscodeTask launch now f =
     (case load f of
        Inl e \<Rightarrow> (Some e, [])
      | Inr transcodeTasks \<Rightarrow>
          if list_ex (\<lambda>t. Status t = ''transcoding'') transcodeTasks then (None, [])
          else
            (let nextTaskID =
                   (case find (\<lambda>t. Status t = ''waiting'') transcodeTasks of
                      None \<Rightarrow> []
                    | Some task \<Rightarrow> TaskID task)
             in if nextTaskID \<noteq> []
                then (case startTranscode launch now f nextTaskID of
                        Inl e \<Rightarrow> (Some e, [])
                      | Inr l \<Rightarrow> (None, [l]))
                else (None, [])))"

section \<open>Enqueueing a task\<close>

text \<open>
  The record \<open>DownloadTorrentFiles\<close> appends. The task id is \<open>"task-"\<close> followed by the
  Unix time in seconds, a parameter here.
\<close>

definition initialProgress ::
    "string \<Rightarrow> string \<Rightarrow> string list \<Rightarrow> string \<Rightarrow> string \<Rightarrow> dtask" where
  "initialProgress taskId magnetLink selectedFiles fileName now =
     [''taskId'' \<mapsto> JStr taskId,
      ''magnetLink'' \<mapsto> JStr magnetLink,
      ''status'' \<mapsto> JStr ''waiting'',
      ''totalSize'' \<mapsto> JNum 0,
      ''downloaded'' \<mapsto> JNum 0,
      ''selectedFiles'' \<mapsto> JArr (map JStr selectedFiles),
      ''fileName'' \<mapsto> JStr fileName,
      ''startTime'' \<mapsto> JStr now,
      ''outputDir'' \<mapsto> JStr ''./downloads'',
      ''speed'' \<mapsto> JNum 0,
      ''percentage'' \<mapsto> JNum 0]"

text \<open>
  \<open>DownloadTorrentFiles\<close> first decodes the request, saves the torrent to a temporary
  file and asks the tool for the magnet link; \<open>prep\<close> is that link, or \<open>None\<close> when one of
  these steps fails (the function then returns before it touches the store). An unreadable
  or undecodable store counts as the empty list. The new task is appended and the store
  written; the task is started only when the scan found no downloading task.
\<close>

datatype prepError = PrepareFailed

definition DownloadTorrentFiles ::
    "string option \<Rightarrow> int option \<Rightarrow> string \<Rightarrow> string \<Rightarrow> string list \<Rightarrow> string \<Rightarrow>
     dtask storeFile \<Rightarrow> (prepError + error) option \<times> dtask list list" where
  "DownloadTorrentFiles prep launch taskId now selectedFiles fileName f =
     (case prep of
        None \<Rightarrow> (Some (Inl PrepareFailed), [])
      | Some magnetLink \<Rightarrow>
          let progressList0 = tasksOf f;
              hasDownloadingTask = list_ex (hasStatus ''downloading'') progressList0;
              progressList =
                progressList0 @ [initialProgress taskId magnetLink selectedFiles fileName now]
          in if \<not> hasDownloadingTask
             then (case startDownload launch (Content progressList) taskId of
                     Inl e \<Rightarrow> (Some (Inr e), [progressList])
                   | Inr l \<Rightarrow> (None, [progressList, l]))
             else (None, [progressList]))"

text \<open>
  \<open>AddTranscodeTaskWithParams\<close> checks that the input file and the encoder exist (\<open>prep\<close>),
  builds the task and the command line it records (\<open>ffmpegCommand\<close>, which no decision
  reads), appends the task, writes the store and, when no task is transcoding, calls
  \<open>startNextTranscodeTask\<close>.
\<close>

definition newTranscodeTask ::
    "string \<Rightarrow> string \<Rightarrow> string \<Rightarrow> int \<Rightarrow> string \<Rightarrow> string \<Rightarrow> string \<Rightarrow> string \<Rightarrow> string \<Rightarrow>
     TranscodeTask" where
  "newTranscodeTask taskID inputFile outputFile now ffmpegCommand videoCodec audioCodec
     resolution bitrate =
     \<lparr>TaskID = taskID, InputFile = inputFile, OutputFile = outputFile, Status = ''waiting'',
      StartTime = now, EndTime = 0, Progress = 0, Speed = [], TimeRemaining = [],
      FFmpegCommand = ffmpegCommand, PID = 0, Error = [], VideoCodec = videoCodec,
      AudioCodec = audioCodec, Resolution = resolution, Bitrate = bitrate\<rparr>"


subsection \<open>Calls that overlap\<close>

text \<open>
  The functions bound to the user interface run in goroutines of their own, like the
  goroutine that \<open>startDownload\<close> starts, and nothing serialises their accesses to the
  store file. \<open>DownloadTorrentFiles\<close> consists of two accesses: it reads the store, scans
  it, appends its task and writes (\<open>enqueueWrite\<close>: the result of the scan and the list
  written); then, if the scan found no downloading task, \<open>startDownload\<close> launches the
  child, reads the store again, marks the task and writes.

  \<open>overlappingEnqueues\<close> is the run of two calls in which the second call reads the store
  after the first call has written its task and before the first call's \<open>startDownload\<close>
  reads it again: the lists written, in order.
\<close>

definition enqueueWrite ::
    "string \<Rightarrow> string \<Rightarrow> string \<Rightarrow> string list \<Rightarrow> string \<Rightarrow> dtask storeFile \<Rightarrow>
     bool \<times> dtask list" where
  "enqueueWrite magnetLink taskId now selectedFiles fileName f =
     (let progressList0 = tasksOf f;
          hasDownloadingTask = list_ex (hasStatus ''downloading'') progressList0
      in (hasDownloadingTask,
          progressList0 @ [initialProgress taskId magnetLink selectedFiles fileName now]))"

definition startIfIdle :: "bool \<Rightarrow> int option \<Rightarrow> dtask storeFile \<Rightarrow> string \<Rightarrow> dtask list list" where
  "startIfIdle hasDownloadingTask launch f taskId =
     (if \<not> hasDownloadingTask
      then (case startDownload launch f taskId of Inl e \<Rightarrow> [] | Inr l \<Rightarrow> [l])
      else [])"


section \<open>The exit of the child process\<close>

text \<open>
  The goroutine of \<open>startDownload\<close>, from \<open>downloadCmd.Wait()\<close> on. \<open>waitFailed\<close> says
  whether \<open>Wait\<close> returned an error. Both branches read the store and look for the task:
  a task found cancelled or paused is left alone and nothing is written; otherwise the
  task is set to waiting without pid (after an error) or to completed (after a clean
  exit), with its end time, and the store is written. \<open>startNextWaitingTask\<close> runs last.
\<close>

definition downloadExitUpdate :: "bool \<Rightarrow> string \<Rightarrow> dtask \<Rightarrow> dtask" where
  "downloadExitUpdate waitFailed now p =
     (if waitFailed
      then (p(''status'' \<mapsto> JStr ''waiting'', ''endTime'' \<mapsto> JStr now))(''pid'' := None)
      else p(''status'' \<mapsto> JStr ''completed'', ''endTime'' \<mapsto> JStr now))"

definition monitorDownloadExit ::
    "bool \<Rightarrow> int option \<Rightarrow> string \<Rightarrow> string \<Rightarrow> dtask storeFile \<Rightarrow>
     panic option \<times> dtask list list" where
  "monitorDownloadExit waitFailed launchNext now taskId f =
     (case load f of
        Inl e \<Rightarrow> (None, [])
      | Inr currentProgressList \<Rightarrow>
          (case find (hasTaskId taskId) currentProgressList of
             Some p \<Rightarrow>
               if hasStatus ''cancelled'' p \<or> hasStatus ''paused'' p
               then startNextWaitingTask launchNext f
               else
                 (let l = updFirst (hasTaskId taskId) (downloadExitUpdate waitFailed now)
                            currentProgressList
                  in case startNextWaitingTask launchNext (Content l) of
                       (pn, ws) \<Rightarrow> (pn, l # ws))
           | None \<Rightarrow>
               (case startNextWaitingTask launchNext (Content currentProgressList) of
                  (pn, ws) \<Rightarrow> (pn, currentProgressList # ws))))"

text \<open>
  \<open>monitorTranscodeProgress\<close>, from \<open>cmd.Wait()\<close> on. \<open>cmdErr\<close> is the text of the error of
  \<open>Wait\<close>, if any. The task is looked up by id and updated whatever its status is.
\<close>

definition transcodeExitUpdate :: "string option \<Rightarrow> int \<Rightarrow> TranscodeTask \<Rightarrow> TranscodeTask" where
  "transcodeExitUpdate cmdErr now t =
     (case cmdErr of
        Some e \<Rightarrow> t\<lparr>Status := ''failed'', Error := (if Error t = [] then e else Error t)\<rparr>
      | None \<Rightarrow> t\<lparr>Status := ''completed'', Progress := 1\<rparr>)\<lparr>EndTime := now\<rparr>"

definition monitorTranscodeExit ::
    "string option \<Rightarrow> int option \<Rightarrow> int \<Rightarrow> int \<Rightarrow> string \<Rightarrow> TranscodeTask storeFile \<Rightarrow>
     TranscodeTask list list" where
  "monitorTranscodeExit cmdErr launchNext now nowNext taskID f =
     (case load f of
        Inl e \<Rightarrow> []
      | Inr transcodeTasks \<Rightarrow>
          (let l = updFirst (\<lambda>t. TaskID t = taskID) (transcodeExitUpdate cmdErr now)
                     transcodeTasks
           in l # snd (startNextTranscodeTask launchNext nowNext (Content l))))"

section \<open>Recovery at startup\<close>

text \<open>
  \<open>startup\<close> treats the download store, then the transcode store. For each it demotes
  every task found in the active status to waiting, with the end time set and the pid
  removed, writes the store if a task was demoted, and starts the waiting task with the
  earliest start time. A missing file is created with the content \<open>[]\<close>.
  \<open>startupDownloads\<close> and \<open>startupTranscodes\<close> are the two parts of the function, in
  this order; \<open>startup\<close> joins them: the function returns from its first part when the
  download store is missing, unreadable or undecodable, and a panic ends it.
\<close>

definition demoteDownload :: "string \<Rightarrow> dtask \<Rightarrow> dtask" where
  "demoteDownload now task =
     (if hasStatus ''downloading'' task
      then (task(''status'' \<mapsto> JStr ''waiting'', ''endTime'' \<mapsto> JStr now))(''pid'' := None)
      else task)"

text \<open>The demotion step on a decoded list: the new list, and what is written.\<close>

definition demoteDownloads :: "string \<Rightarrow> dtask list \<Rightarrow> dtask list \<times> dtask list list" where
  "demoteDownloads now progressList =
     (let hasDownloadingTask = list_ex (hasStatus ''downloading'') progressList;
          progressList' = map (demoteDownload now) progressList
      in (progressList', if hasDownloadingTask then [progressList'] else []))"

text \<open>
  The search for the earliest waiting task: a task whose start time is not a string, or
  does not parse, is skipped; a later task replaces the candidate only when its start
  time is strictly before the candidate's.
\<close>

fun earliestWaiting ::
    "(string \<Rightarrow> int option) \<Rightarrow> dtask list \<Rightarrow> (dtask \<times> int) option \<Rightarrow> (dtask \<times> int) option" where
  "earliestWaiting parseTime [] earliest = earliest"
| "earliestWaiting parseTime (task # ts) earliest =
     (if hasStatus ''waiting'' task
      then (case task ''startTime'' of
              Some (JStr startTimeStr) \<Rightarrow>
                (case parseTime startTimeStr of
                   None \<Rightarrow> earliestWaiting parseTime ts earliest
                 | Some startTime \<Rightarrow>
                     (case earliest of
                        None \<Rightarrow> earliestWaiting parseTime ts (Some (task, startTime))
                      | Some (earliestTask, earliestTime) \<Rightarrow>
                          if startTime < earliestTime
                          then earliestWaiting parseTime ts (Some (task, startTime))
                          else earliestWaiting parseTime ts earliest))
            | _ \<Rightarrow> earliestWaiting parseTime ts earliest)
      else earliestWaiting parseTime ts earliest)"

definition startupDownloads ::
    "(string \<Rightarrow> int option) \<Rightarrow> int option \<Rightarrow> string \<Rightarrow> dtask storeFile \<Rightarrow>
     panic option \<times> dtask list list" where
  "startupDownloads parseTime launch now f =
     (case f of
        Missing \<Rightarrow> (None, [[]])
      | Unreadable \<Rightarrow> (None, [])
      | Undecodable \<Rightarrow> (None, [])
      | Content progressList0 \<Rightarrow>
          (case demoteDownloads now progressList0 of
             (progressList, w) \<Rightarrow>
               (case earliestWaiting parseTime progressList None of
                  None \<Rightarrow> (None, w)
                | Some (earliestTask, earliestTime) \<Rightarrow>
                    (case startSelected launch (after f w) earliestTask of
                       (pn, ws) \<Rightarrow> (pn, w @ ws)))))"

definition demoteTranscode :: "int \<Rightarrow> TranscodeTask \<Rightarrow> TranscodeTask" where
  "demoteTranscode now task =
     (if Status task = ''transcoding''
      then task\<lparr>Status := ''waiting'', EndTime := now, PID := 0\<rparr>
      else task)"

definition demoteTranscodes ::
    "int \<Rightarrow> TranscodeTask list \<Rightarrow> TranscodeTask list \<times> TranscodeTask list list" where
  "demoteTranscodes now transcodeTasks =
     (let hasTranscodingTask = list_ex (\<lambda>t. Status t = ''transcoding'') transcodeTasks;
          transcodeTasks' = map (demoteTranscode now) transcodeTasks
      in (transcodeTasks', if hasTranscodingTask then [transcodeTasks'] else []))"

fun earliestWaitingTranscode ::
    "TranscodeTask list \<Rightarrow> (TranscodeTask \<times> int) option \<Rightarrow> (TranscodeTask \<times> int) option" where
  "earliestWaitingTranscode [] earliest = earliest"
| "earliestWaitingTranscode (task # ts) earliest =
     (if Status task = ''waiting''
      then (case earliest of
              None \<Rightarrow> earliestWaitingTranscode ts (Some (task, StartTime task))
            | Some (earliestTranscodeTask, earliestTranscodeTime) \<Rightarrow>
                if StartTime task < earliestTranscodeTime
                then earliestWaitingTranscode ts (Some (task, StartTime task))
                else earliestWaitingTranscode ts earliest)
      else earliestWaitingTranscode ts earliest)"

definition startupTranscodes ::
    "int option \<Rightarrow> int \<Rightarrow> int \<Rightarrow> TranscodeTask storeFile \<Rightarrow> TranscodeTask list list" where
  "startupTranscodes launch now nowStart f =
     (case f of
        Missing \<Rightarrow> [[]]
      | Unreadable \<Rightarrow> []
      | Undecodable \<Rightarrow> []
      | Content transcodeTasks0 \<Rightarrow>
          (case demoteTranscodes now transcodeTasks0 of
             (transcodeTasks, w) \<Rightarrow>
               (case earliestWaitingTranscode transcodeTasks None of
                  None \<Rightarrow> w
                | Some (earliestTranscodeTask, earliestTranscodeTime) \<Rightarrow>
                    (case startTranscode launch nowStart (after f w)
                            (TaskID earliestTranscodeTask) of
                       Inl e \<Rightarrow> w
                     | Inr l \<Rightarrow> w @ [l]))))"

definition startup ::
    "(string \<Rightarrow> int option) \<Rightarrow> int option \<Rightarrow> int option \<Rightarrow> string \<Rightarrow> int \<Rightarrow> int \<Rightarrow>
     dtask storeFile \<Rightarrow> TranscodeTask storeFile \<Rightarrow>
     panic option \<times> dtask list list \<times> TranscodeTask list list" where
  "startup parseTime launch launchT now nowT nowStart fd ft =
     (case fd of
        Content progressList0 \<Rightarrow>
          (case startupDownloads parseTime launch now fd of
             (Some pn, wd) \<Rightarrow> (Some pn, wd, [])
           | (None, wd) \<Rightarrow> (None, wd, startupTranscodes launchT nowT nowStart ft))
      | _ \<Rightarrow> (None, snd (startupDownloads parseTime launch now fd), []))"

text \<open>The two store files after \<open>startup\<close> has written what \<open>r\<close> lists.\<close>

definition filesAfter ::
    "dtask storeFile \<Rightarrow> TranscodeTask storeFile \<Rightarrow>
     panic option \<times> dtask list list \<times> TranscodeTask list list \<Rightarrow>
     dtask storeFile \<times> TranscodeTask storeFile" where
  "filesAfter fd ft r = (after fd (fst (snd r)), after ft (snd (snd r)))"

section \<open>Cancelling a task\<close>

text \<open>
  Both cancel functions return the error (if any), the pids they asked the system to
  kill and the lists they wrote. \<open>CancelTranscode\<close> takes the first task with the id: it
  kills the process of a transcoding task with a pid, then sets the status to cancelled
  and the end time, whatever the status was.
\<close>

definition CancelTranscode ::
    "int \<Rightarrow> string \<Rightarrow> TranscodeTask storeFile \<Rightarrow>
     error option \<times> int list \<times> TranscodeTask list list" where
  "CancelTranscode now taskID f =
     (case load f of
        Inl e \<Rightarrow> (Some e, [], [])
      | Inr transcodeTasks \<Rightarrow>
          (case find (\<lambda>t. TaskID t = taskID) transcodeTasks of
             None \<Rightarrow> (Some (TaskNotFound taskID), [], [])
           | Some task \<Rightarrow>
               (None,
                if Status task = ''transcoding'' \<and> PID task \<noteq> 0 then [PID task] else [],
                [updFirst (\<lambda>t. TaskID t = taskID)
                   (\<lambda>t. t\<lparr>Status := ''cancelled'', EndTime := now\<rparr>) transcodeTasks])))"

text \<open>
  The loop of \<open>CancelDownload\<close>. A task with the id sets \<open>taskFound\<close>. If it is downloading
  with a pid that is not a number, the \<open>continue\<close> of the type switch leaves it as it is
  and the loop goes on; otherwise the process of a downloading task is killed, the task
  is set to cancelled with its end time and the loop ends. The result is the list, the
  flag and the pids killed.
\<close>

definition numOf :: "jval option \<Rightarrow> int option" where
  "numOf v = (case v of Some (JNum n) \<Rightarrow> Some n | _ \<Rightarrow> None)"

fun cancelLoop :: "string \<Rightarrow> string \<Rightarrow> dtask list \<Rightarrow> dtask list \<times> bool \<times> int list" where
  "cancelLoop now taskId [] = ([], False, [])"
| "cancelLoop now taskId (task # ts) =
     (if hasTaskId taskId task
      then
        (if task ''status'' = Some (JStr ''downloading'') \<and> task ''pid'' \<noteq> None
             \<and> task ''pid'' \<noteq> Some JNull
         then
           (if numOf (task ''pid'') = None
            then (let r = cancelLoop now taskId ts in (task # fst r, True, snd (snd r)))
            else (task(''status'' \<mapsto> JStr ''cancelled'', ''endTime'' \<mapsto> JStr now) # ts,
                  True, [the (numOf (task ''pid''))]))
         else (task(''status'' \<mapsto> JStr ''cancelled'', ''endTime'' \<mapsto> JStr now) # ts, True, []))
      else (let r = cancelLoop now taskId ts in (task # fst r, fst (snd r), snd (snd r))))"

definition CancelDownload ::
    "string \<Rightarrow> string \<Rightarrow> dtask storeFile \<Rightarrow> error option \<times> int list \<times> dtask list list" where
  "CancelDownload now taskId f =
     (case load f of
        Inl e \<Rightarrow> (Some e, [], [])
      | Inr progressList \<Rightarrow>
          (case cancelLoop now taskId progressList of
             (progressList', taskFound, killed) \<Rightarrow>
               if \<not> taskFound then (Some (TaskNotFound taskId), killed, [])
               else (None, killed, [progressList'])))"

section \<open>Querying the transcode store\<close>

text \<open>
  \<open>GetTranscodeStatus\<close> returns a JSON text and an error. \<open>json.Marshal\<close> is a parameter
  for each of the two values the function encodes: the response \<open>{"tasks": l}\<close>
  (\<open>marshalTasks l\<close>) and a single task (\<open>marshalTask\<close>); \<open>None\<close> is an encoding error.
  Where the source drops the error of \<open>json.Marshal\<close>, the text is that of the (empty)
  byte slice returned with it.
\<close>

definition emptyTasks :: "(TranscodeTask list \<Rightarrow> string option) \<Rightarrow> string" where
  "emptyTasks marshalTasks = (case marshalTasks [] of Some s \<Rightarrow> s | None \<Rightarrow> [])"

definition GetTranscodeStatus ::
    "(TranscodeTask list \<Rightarrow> string option) \<Rightarrow> (TranscodeTask \<Rightarrow> string option) \<Rightarrow>
     string \<Rightarrow> TranscodeTask storeFile \<Rightarrow> string \<times> error option" where
  "GetTranscodeStatus marshalTasks marshalTask taskID f =
     (case load f of
        Inl e \<Rightarrow> (emptyTasks marshalTasks, None)
      | Inr transcodeTasks \<Rightarrow>
          if taskID = []
          then (case marshalTasks transcodeTasks of
                  None \<Rightarrow> (emptyTasks marshalTasks, None)
                | Some jsonData \<Rightarrow> (jsonData, None))
          else
            (case find (\<lambda>t. TaskID t = taskID) transcodeTasks of
               Some task \<Rightarrow>
                 (case marshalTask task of
                    None \<Rightarrow> (''{}'', None)
                  | Some jsonData \<Rightarrow> (jsonData, None))
             | None \<Rightarrow> (''{}'', None)))"

section \<open>Progress of a transcode\<close>

text \<open>
  The variables shared by the two reader goroutines of \<open>monitorTranscodeProgress\<close>. The
  \<open>float64\<close> values are real numbers here.
\<close>

record monitor =
  currentProgress :: real
  totalDuration :: real
  hasTotalDuration :: bool
  currentTime :: real
  currentFrame :: int
  currentSpeed :: string

text \<open>What a reader asks the store to record: the calls it makes.\<close>

datatype update = UpdateSpeed string | UpdateProgress real string

text \<open>\<open>strings.SplitN(line, "=", 2)\<close> with two parts, and \<open>strings.Split(value, ":")\<close>.\<close>

definition splitKeyValue :: "string \<Rightarrow> (string \<times> string) option" where
  "splitKeyValue line =
     (if CHR ''='' \<in> set line
      then Some (takeWhile (\<lambda>c. c \<noteq> CHR ''='') line, tl (dropWhile (\<lambda>c. c \<noteq> CHR ''='') line))
      else None)"

fun splitOn :: "char \<Rightarrow> string \<Rightarrow> string list" where
  "splitOn c [] = [[]]"
| "splitOn c (x # xs) =
     (if x = c then [] # splitOn c xs
      else (case splitOn c xs of p # ps \<Rightarrow> (x # p) # ps | [] \<Rightarrow> [[x]]))"

text \<open>
  The three tiers of the progress computation, with the tier taken (the source's
  \<open>progressType\<close>), followed by the clamp to \<open>[0, 1]\<close>. The first tier also caps
  \<open>currentTime\<close> at the total duration.
\<close>

datatype tier = ByTime | ByFrames | ByIncrement

definition calculateProgress :: "monitor \<Rightarrow> monitor \<times> real \<times> tier" where
  "calculateProgress m =
     (let (m', calculatedProgress, progressType) =
            (if hasTotalDuration m \<and> totalDuration m > 0 \<and> currentTime m > 0
             then
               (let m1 = (if currentTime m > totalDuration m
                          then m\<lparr>currentTime := totalDuration m\<rparr> else m)
                in (m1, currentTime m1 / totalDuration m1, ByTime))
             else if currentFrame m > 0
             then
               (let p = real_of_int (currentFrame m) / 100000
                in (m, if p > 0.99 then 0.99 else p, ByFrames))
             else
               (let p = currentProgress m + 0.001
                in (m, if p > 0.99 then 0.99 else p, ByIncrement)))
      in (m',
          if calculatedProgress < 0 then 0
          else if calculatedProgress > 1 then 1 else calculatedProgress,
          progressType))"

text \<open>
  One line of the standard output. \<open>parseFloat\<close> and \<open>parseInt\<close> are \<open>strconv.ParseFloat\<close>
  (whose error the source drops) and \<open>strconv.ParseInt\<close> in base 10. \<open>applyField\<close> is the
  \<open>switch key\<close> statement: the new variables and the store updates it asks for.
\<close>

definition applyField ::
    "(string \<Rightarrow> real) \<Rightarrow> (string \<Rightarrow> int option) \<Rightarrow> monitor \<Rightarrow> string \<Rightarrow> string \<Rightarrow>
     monitor \<times> update list" where
  "applyField parseFloat parseInt m key val =
     (if key = ''out_time''
      then (case splitOn (CHR '':'') val of
              [hours, minutes, seconds] \<Rightarrow>
                (m\<lparr>currentTime := parseFloat hours * 3600
                     + parseFloat minutes * 60 + parseFloat seconds\<rparr>, [])
            | _ \<Rightarrow> (m, []))
      else if key = ''frame''
      then (case parseInt val of
              Some frame \<Rightarrow> (m\<lparr>currentFrame := frame\<rparr>, [])
            | None \<Rightarrow> (m, []))
      else if key = ''speed''
      then (m\<lparr>currentSpeed := val\<rparr>, [UpdateSpeed val])
      else if key = ''progress''
      then (if val = ''end''
            then (m\<lparr>currentProgress := 1\<rparr>, [UpdateProgress 1 []])
            else (m, []))
      else (m, []))"

definition stdoutLine ::
    "(string \<Rightarrow> real) \<Rightarrow> (string \<Rightarrow> int option) \<Rightarrow> monitor \<Rightarrow> string \<Rightarrow>
     monitor \<times> update list" where
  "stdoutLine parseFloat parseInt m line =
     (case splitKeyValue line of
        None \<Rightarrow> (m, [])
      | Some (key, val) \<Rightarrow>
          (case applyField parseFloat parseInt m key val of
             (m1, u1) \<Rightarrow>
               (case calculateProgress m1 of
                  (m2, calculatedProgress, progressType) \<Rightarrow>
                    if calculatedProgress > currentProgress m2 + 0.005 \<or> calculatedProgress = 1
                    then (m2\<lparr>currentProgress := calculatedProgress\<rparr>,
                          u1 @ [UpdateProgress calculatedProgress []])
                    else (m2, u1))))"

text \<open>
  The pattern \<^verbatim>\<open>Duration: (\d+):(\d+):(\d+\.\d+)\<close> of the error stream. \<open>matchDurationAt\<close>
  matches it at the start of a text (each run of digits is followed by a character that
  is not a digit, so the greedy match is the only one); \<open>durationRegex\<close> is
  \<open>FindStringSubmatch\<close>: the groups of the leftmost match.
\<close>

definition matchDurationAt :: "string \<Rightarrow> (string \<times> string \<times> string) option" where
  "matchDurationAt s =
     (if take 10 s = ''Duration: ''
      then
        (let r0 = drop 10 s; hours = takeWhile isDigit r0; r1 = dropWhile isDigit r0
         in if hours \<noteq> [] \<and> take 1 r1 = '':''
            then
              (let r2 = drop 1 r1; minutes = takeWhile isDigit r2; r3 = dropWhile isDigit r2
               in if minutes \<noteq> [] \<and> take 1 r3 = '':''
                  then
                    (let r4 = drop 1 r3; si = takeWhile isDigit r4; r5 = dropWhile isDigit r4;
                         sf = takeWhile isDigit (drop 1 r5)
                     in if si \<noteq> [] \<and> take 1 r5 = ''.'' \<and> sf \<noteq> []
                        then Some (hours, minutes, si @ ''.'' @ sf)
                        else None)
                  else None)
            else None)
      else None)"

fun durationRegex :: "string \<Rightarrow> (string \<times> string \<times> string) option" where
  "durationRegex [] = None"
| "durationRegex (c # cs) =
     (case matchDurationAt (c # cs) of
        Some groups \<Rightarrow> Some groups
      | None \<Rightarrow> durationRegex cs)"

text \<open>
  One line of the error stream. A line that contains \<open>Error\<close> or \<open>error\<close> is recorded
  with the current progress. When the duration arrives after a current time, the
  progress is their quotient, at most 1; a \<open>float64\<close> division by a zero duration gives
  \<open>+Inf\<close>, cut to 1.
\<close>

fun Contains :: "string \<Rightarrow> string \<Rightarrow> bool" where
  "Contains [] sub = (sub = [])"
| "Contains (c # cs) sub = (take (length sub) (c # cs) = sub \<or> Contains cs sub)"

definition stderrLine :: "(string \<Rightarrow> real) \<Rightarrow> monitor \<Rightarrow> string \<Rightarrow> monitor \<times> update list" where
  "stderrLine parseFloat m line =
     (if Contains line ''Error'' \<or> Contains line ''error''
      then (m, [UpdateProgress (currentProgress m) line])
      else if \<not> hasTotalDuration m
      then (case durationRegex line of
              None \<Rightarrow> (m, [])
            | Some (hours, minutes, seconds) \<Rightarrow>
                (let total = parseFloat hours * 3600 + parseFloat minutes * 60
                               + parseFloat seconds;
                     m1 = m\<lparr>totalDuration := total, hasTotalDuration := True\<rparr>
                 in if currentTime m1 > 0
                    then
                      (let q = (if total = 0 then 1
                                else if currentTime m1 / total > 1 then 1
                                else currentTime m1 / total)
                       in (m1\<lparr>currentProgress := q\<rparr>, [UpdateProgress q []]))
                    else (m1, [])))
      else (m, []))"

text \<open>
  \<open>strconv.ParseFloat\<close> and \<open>strconv.ParseInt\<close> on plain decimal numerals, for running
  the readers on concrete lines: \<open>digits\<close> or \<open>digits.digits\<close>, and \<open>digits\<close>.
  \<open>parseDecimal\<close> gives the decimal value of the numeral, which is what
  \<open>strconv.ParseFloat\<close> returns when that value is a \<open>float64\<close> (as for the whole numbers
  of the examples), and 0 on any other text, the value the source is left with after a
  syntax error.
\<close>

definition decimalValue :: "string \<Rightarrow> string \<Rightarrow> rat" where
  "decimalValue ip fp = of_nat (decVal ip) + of_nat (decVal fp) / 10 ^ length fp"

definition parseDecimal :: "string \<Rightarrow> real" where
  "parseDecimal s =
     (case sizeRegex s of
        Some (ip, fp, []) \<Rightarrow> real_of_rat (decimalValue ip fp)
      | _ \<Rightarrow> 0)"

definition parseDigits :: "string \<Rightarrow> int option" where
  "parseDigits s = (if s \<noteq> [] \<and> list_all isDigit s then Some (int (decVal s)) else None)"

section \<open>Example stores\<close>

text \<open>Concrete stores on which the operations are run below.\<close>

definition downloadA :: dtask where
  "downloadA = [''taskId'' \<mapsto> JStr ''task-1'', ''status'' \<mapsto> JStr ''waiting'',
                ''magnetLink'' \<mapsto> JStr ''magnet:a'', ''outputDir'' \<mapsto> JStr ''./downloads'',
                ''startTime'' \<mapsto> JStr ''1'', ''percentage'' \<mapsto> JNum 50]"

definition transcodeA :: TranscodeTask where
  "transcodeA = newTranscodeTask ''transcode-1'' ''a.mkv'' ''a.mp4'' 1 ''ffmpeg -i a.mkv a.mp4''
                  [] [] [] []"

text \<open>A field of a download task, and the same fields of every list written.\<close>

definition field :: "string \<Rightarrow> dtask \<Rightarrow> jval option" where
  "field k task = task k"

definition fields :: "string \<Rightarrow> dtask list list \<Rightarrow> jval option list list" where
  "fields k ws = map (map (field k)) ws"

definition statuses :: "TranscodeTask list list \<Rightarrow> string list list" where
  "statuses ws = map (map Status) ws"

definition downloadRunning :: dtask where
  "downloadRunning = downloadA(''status'' \<mapsto> JStr ''downloading'', ''pid'' \<mapsto> JNum 4242)"

definition transcodeRunning :: TranscodeTask where
  "transcodeRunning = transcodeA\<lparr>Status := ''transcoding'', PID := 77\<rparr>"

definition transcodeCancelled :: TranscodeTask where
  "transcodeCancelled = transcodeA\<lparr>Status := ''cancelled'', PID := 77, EndTime := 4\<rparr>"

text \<open>The variables of a monitor halfway through a file of ten seconds.\<close>

definition monitorHalf :: monitor where
  "monitorHalf = \<lparr>currentProgress = 0.5, totalDuration = 10, hasTotalDuration = True,
                   currentTime = 5, currentFrame = 120, currentSpeed = []\<rparr>"

definition monitorNoDuration :: monitor where
  "monitorNoDuration = \<lparr>currentProgress = 0.2, totalDuration = 0, hasTotalDuration = False,
                         currentTime = 12, currentFrame = 0, currentSpeed = []\<rparr>"

text \<open>The parsed start time of a download task, when it is a string that parses.\<close>

definition startOf :: "(string \<Rightarrow> int option) \<Rightarrow> dtask \<Rightarrow> int option" where
  "startOf parseTime task =
     (case task ''startTime'' of Some (JStr startTimeStr) \<Rightarrow> parseTime startTimeStr | _ \<Rightarrow> None)"

text \<open>
  Two waiting tasks per domain, the first of the list with the later start time. In the
  download examples the start times are written as plain seconds and \<open>parseDigits\<close>
  stands for \<open>time.Parse\<close>.
\<close>

definition transcodeLate :: TranscodeTask where
  "transcodeLate = newTranscodeTask ''transcode-2'' ''b.mkv'' ''b.mp4'' 10 ''ffmpeg -i b.mkv b.mp4''
                     [] [] [] []"

definition transcodeEarly :: TranscodeTask where
  "transcodeEarly = newTranscodeTask ''transcode-3'' ''c.mkv'' ''c.mp4'' 5 ''ffmpeg -i c.mkv c.mp4''
                      [] [] [] []"

definition downloadLate :: dtask where
  "downloadLate = [''taskId'' \<mapsto> JStr ''task-2'', ''status'' \<mapsto> JStr ''waiting'',
                   ''magnetLink'' \<mapsto> JStr ''magnet:b'', ''outputDir'' \<mapsto> JStr ''./downloads'',
                   ''startTime'' \<mapsto> JStr ''10'']"

definition downloadEarly :: dtask where
  "downloadEarly = [''taskId'' \<mapsto> JStr ''task-3'', ''status'' \<mapsto> JStr ''waiting'',
                    ''magnetLink'' \<mapsto> JStr ''magnet:c'', ''outputDir'' \<mapsto> JStr ''./downloads'',
                    ''startTime'' \<mapsto> JStr ''5'']"

definition taskIds :: "(TranscodeTask \<times> int) option \<Rightarrow> string option" where
  "taskIds r = map_option (TaskID \<circ> fst) r"

definition selectedField :: "string \<Rightarrow> (dtask \<times> int) option \<Rightarrow> jval option" where
  "selectedField k r = (case r of None \<Rightarrow> None | Some (task, startTime) \<Rightarrow> task k)"

text \<open>
  The common shape of the two searches of \<open>startup\<close>: \<open>key\<close> gives the start time of a
  task that takes part in the search and \<open>None\<close> for a task that is skipped.
\<close>

fun earliestBy :: "('a \<Rightarrow> int option) \<Rightarrow> 'a list \<Rightarrow> ('a \<times> int) option \<Rightarrow> ('a \<times> int) option" where
  "earliestBy key [] earliest = earliest"
| "earliestBy key (task # ts) earliest =
     (case key task of
        None \<Rightarrow> earliestBy key ts earliest
      | Some startTime \<Rightarrow>
          (case earliest of
             None \<Rightarrow> earliestBy key ts (Some (task, startTime))
           | Some (earliestTask, earliestTime) \<Rightarrow>
               if startTime < earliestTime
               then earliestBy key ts (Some (task, startTime))
               else earliestBy key ts earliest))"

definition downloadKey :: "(string \<Rightarrow> int option) \<Rightarrow> dtask \<Rightarrow> int option" where
  "downloadKey parseTime task =
     (if hasStatus ''waiting'' task then startOf parseTime task else None)"

definition transcodeKey :: "TranscodeTask \<Rightarrow> int option" where
  "transcodeKey task = (if Status task = ''waiting'' then Some (StartTime task) else None)"

text \<open>Tasks in a terminal state, and encoders that keep the ids only, for the examples.\<close>

definition transcodeCompleted :: TranscodeTask where
  "transcodeCompleted = transcodeA\<lparr>Status := ''completed'', Progress := 1, EndTime := 4\<rparr>"

definition downloadCompleted :: dtask where
  "downloadCompleted = downloadA(''status'' \<mapsto> JStr ''completed'', ''endTime'' \<mapsto> JStr ''4'')"

definition idsJson :: "TranscodeTask list \<Rightarrow> string option" where
  "idsJson l = Some (''{tasks:['' @ concat (map TaskID l) @ '']}'')"

definition idJson :: "TranscodeTask \<Rightarrow> string option" where
  "idJson t = Some (''{taskId:'' @ TaskID t @ ''}'')"

section \<open>Properties of the size parser\<close>

lemma takeWhile_digits_then:
  assumes "list_all isDigit ds" and "u = [] \<or> \<not> isDigit (hd u)"
  shows "takeWhile isDigit (ds @ u) = ds" and "dropWhile isDigit (ds @ u) = u"
proof -
  from assms(1) have all: "\<forall>c \<in> set ds. isDigit c" by (simp add: list_all_iff)
  from assms(2) have tw: "takeWhile isDigit u = []" and dw: "dropWhile isDigit u = u"
    by (cases u; auto)+
  show "takeWhile isDigit (ds @ u) = ds"
    using all tw by (simp add: takeWhile_append2)
  show "dropWhile isDigit (ds @ u) = u"
    using all dw by simp
qed

lemma units_cases:
  assumes "(u, k) \<in> set units"
  obtains "u = []" "k = 0" | "u = ''B''" "k = 0" | "u = ''KB''" "k = 1" | "u = ''MB''" "k = 2"
    | "u = ''GB''" "k = 3" | "u = ''TB''" "k = 4" | "u = ''PB''" "k = 5"
  using assms unfolding units_def by auto

lemma sizeRegex_digits_unit:
  assumes "ds \<noteq> []" and "list_all isDigit ds" and "(u, k) \<in> set units"
  shows "sizeRegex (ds @ u) = Some (ds, [], u)"
proof -
  from assms(3) have nd: "u = [] \<or> \<not> isDigit (hd u)"
    by (rule units_cases) (simp_all add: isDigit_def)
  have tw: "takeWhile isDigit (ds @ u) = ds" and dw: "dropWhile isDigit (ds @ u) = u"
    using takeWhile_digits_then [OF assms(2) nd] by simp_all
  show ?thesis
    unfolding sizeRegex_def tw dw
    by (rule units_cases [OF assms(3)]) (use assms(1) in \<open>simp_all add: Let_def\<close>)
qed

lemma unit_factor:
  assumes "(u, k) \<in> set units"
  shows "multiplier (if u \<noteq> [] then (if length (ToUpper u) = 1 then ToUpper u @ ''B''
                                         else ToUpper u)
                     else ''B'') = of_int (1024 ^ k)"
  using assms
  by (rule units_cases) (simp_all add: ToUpper_def toUpperChar_def multiplier_def)

lemma ilog2_bounds: "0 < n \<Longrightarrow> 2 ^ ilog2 n \<le> n \<and> n < 2 ^ Suc (ilog2 n)"
proof (induction n rule: ilog2.induct)
  case (1 n)
  show ?case
  proof (cases "n < 2")
    case True
    with "1.prems" have "n = 1" by simp
    then show ?thesis by (simp add: ilog2.simps)
  next
    case False
    then have pos: "0 < n div 2" by simp
    from "1.IH" [OF False pos]
    have ih: "2 ^ ilog2 (n div 2) \<le> n div 2" "n div 2 < 2 ^ Suc (ilog2 (n div 2))" by simp_all
    have eq: "ilog2 n = Suc (ilog2 (n div 2))"
      using False by (subst ilog2.simps) simp
    from ih(1) have "2 * 2 ^ ilog2 (n div 2) \<le> n" by simp
    moreover from ih(2) have "n < 2 * 2 ^ Suc (ilog2 (n div 2))" by simp
    ultimately show ?thesis by (simp add: eq)
  qed
qed

lemma ilog2_one: "ilog2 (Suc 0) = 0"
  by (simp add: ilog2.simps)

lemma roundHalfEven_one: "roundHalfEven n (Suc 0) = n"
  by (simp add: roundHalfEven_def)

text \<open>A natural number below \<open>2^53\<close> is a \<open>float64\<close>: rounding leaves it as it is.\<close>

lemma roundFloat64_nat:
  assumes "n < 2 ^ 53"
  shows "roundFloat64 n 1 = Finite (of_nat n)"
proof (cases "n = 0")
  case True
  then show ?thesis by (simp add: roundFloat64_def)
next
  case False
  then have pos: "0 < n" by simp
  let ?a = "ilog2 n"
  from ilog2_bounds [OF pos] have lo: "2 ^ ?a \<le> n" and hi: "n < 2 ^ Suc ?a" by simp_all
  from lo assms have lt: "(2::nat) ^ ?a < 2 ^ 53" by (rule le_less_trans)
  have one: "(1::nat) < 2" by simp
  from power_less_imp_less_exp [OF one lt] have a: "?a < 53" .
  then have s: "max (int ?a - 52) (- 1074) = int ?a - 52" by simp
  have ns: "nat (int ?a - 52) = 0" "nat (- (int ?a - 52)) = 52 - ?a"
    using a by simp_all
  have "(of_nat n :: rat) < of_nat (2 ^ 53)" using assms by (simp only: of_nat_less_iff)
  also have "\<dots> \<le> 2 ^ 1024" by simp
  finally have small: "\<not> (2 ^ 1024 \<le> (of_nat n :: rat))" by simp
  show ?thesis
    using False lo small
    by (simp add: roundFloat64_def ilog2_one Let_def s ns roundHalfEven_one)
qed

lemma ParseFloat_digits:
  assumes "decVal ds < 2 ^ 53"
  shows "ParseFloat ds [] = Inr (of_nat (decVal ds))"
  using roundFloat64_nat [OF assms] by (simp add: ParseFloat_def)

lemma toInt64_product:
  assumes "int n * 1024 ^ k < 2 ^ 63"
  shows "toInt64 (mulFloat64 (of_nat n) (of_int (1024 ^ k))) = int n * 1024 ^ k"
proof -
  have eq: "(of_nat n :: rat) * of_int (1024 ^ k) = of_int (int n * 1024 ^ k)" by simp
  have "(of_int (int n * 1024 ^ k) :: rat) < of_int (2 ^ 63)"
    using assms by (simp only: of_int_less_iff)
  also have "\<dots> \<le> 2 ^ 1024" by simp
  finally have small: "\<not> (2 ^ 1024 \<le> (of_int (int n * 1024 ^ k) :: rat))" by simp
  show ?thesis
    unfolding mulFloat64_def eq
    using small assms by (simp only: if_False toInt64_def float64.case floor_of_int if_True)
qed

lemma parseFileSize_digits_unit:
  assumes "filter (\<lambda>c. c \<noteq> CHR '' '') s = ds @ u"
    and "ds \<noteq> []" and "list_all isDigit ds" and "(u, k) \<in> set units"
    and "decVal ds < 2 ^ 53" and "int (decVal ds) * 1024 ^ k < 2 ^ 63"
  shows "parseFileSize s = Inr (int (decVal ds) * 1024 ^ k)"
proof -
  have m: "sizeRegex (ds @ u) = Some (ds, [], u)"
    by (rule sizeRegex_digits_unit [OF assms(2-4)])
  show ?thesis
    unfolding parseFileSize_def Let_def assms(1) m
    by (simp only: option.case prod.case sum.case ParseFloat_digits [OF assms(5)]
        unit_factor [OF assms(4)] toInt64_product [OF assms(6)])
qed

lemma roundHalfEven_ge: "n div d \<le> roundHalfEven n d"
  by (simp add: roundHalfEven_def Let_def)

text \<open>A numeral of \<open>2^1024\<close> or more is beyond the range of \<open>float64\<close>: the parser fails.\<close>

lemma roundFloat64_overflow:
  assumes "2 ^ 1024 \<le> n"
  shows "roundFloat64 n 1 = PosInf"
proof -
  from assms have pos: "0 < n" by (rule less_le_trans [rotated]) simp
  let ?a = "ilog2 n"
  from ilog2_bounds [OF pos] have lo: "2 ^ ?a \<le> n" and hi: "n < 2 ^ Suc ?a" by simp_all
  from assms hi have lt: "(2::nat) ^ 1024 < 2 ^ Suc ?a" by (rule le_less_trans)
  have one: "(1::nat) < 2" by simp
  from power_less_imp_less_exp [OF one lt] have a: "1024 \<le> ?a" by simp
  then have s: "max (int ?a - 52) (- 1074) = int ?a - 52" by simp
  have ns: "nat (int ?a - 52) = ?a - 52" "nat (- (int ?a - 52)) = 0" "nat (52 - int ?a) = 0"
    using a by simp_all
  let ?m = "roundHalfEven n (2 ^ (?a - 52))"
  have e: "52 + (?a - 52) = ?a" using a by simp
  have "(2::nat) ^ 52 * 2 ^ (?a - 52) = 2 ^ (52 + (?a - 52))" by (simp only: power_add)
  then have pw: "(2::nat) ^ 52 * 2 ^ (?a - 52) = 2 ^ ?a" by (simp only: e)
  with lo have "2 ^ 52 * 2 ^ (?a - 52) \<le> n" by (simp only:)
  then have "2 ^ 52 \<le> n div 2 ^ (?a - 52)"
    by (simp add: less_eq_div_iff_mult_less_eq)
  with roundHalfEven_ge [of n "2 ^ (?a - 52)"] have m: "2 ^ 52 \<le> ?m" by simp
  from a have "(2::nat) ^ 1024 \<le> 2 ^ ?a" by (simp only: power_increasing_iff one)
  also have "\<dots> = 2 ^ 52 * 2 ^ (?a - 52)"
    by (simp only: pw)
  also from m have "\<dots> \<le> ?m * 2 ^ (?a - 52)" by (rule mult_le_mono1)
  finally have "(of_nat (2 ^ 1024) :: rat) \<le> of_nat (?m * 2 ^ (?a - 52))"
    by (simp only: of_nat_le_iff)
  then have big: "(2 ^ 1024 :: rat) \<le> of_nat ?m * 2 ^ (?a - 52)" by simp
  show ?thesis
    using pos lo big
    by (simp add: roundFloat64_def ilog2_one Let_def s ns)
qed

lemma ParseFloat_range_error:
  assumes "2 ^ 1024 \<le> decVal ds"
  shows "ParseFloat ds [] = Inl (ValueOutOfRange ds)"
  using roundFloat64_overflow [OF assms] by (simp add: ParseFloat_def)

lemma ilog2_examples: "ilog2 512 = 9" "ilog2 15 = 3" "ilog2 10 = 3" "ilog2 8192 = 13"
  "ilog2 7 = 2" "ilog2 9007199254740993 = 53"
  by (simp_all add: ilog2.simps)

text \<open>
  Beyond these bounds the result is not the decimal value times the factor: above
  \<open>2^53\<close> the numeral is rounded, and a product that \<open>int64\<close> cannot hold is converted to
  \<open>-2^63\<close>.
\<close>

lemma parseFileSize_beyond_exactness:
  "parseFileSize ''9007199254740993'' = Inr 9007199254740992"
  "parseFileSize ''8192 PB'' = Inr (- (2 ^ 63))"
  by (simp_all add: parseFileSize_def sizeRegex_def isDigit_def ParseFloat_def decVal_def
      digitVal_def ToUpper_def toUpperChar_def multiplier_def roundFloat64_def ilog2_examples
      ilog2_one roundHalfEven_def mulFloat64_def toInt64_def Let_def)

text \<open>
  Claim C6. The size-string parser maps \<open>"512 KB"\<close> to 524288 bytes, \<open>"1.5 GB"\<close> to
  1610612736 bytes and \<open>"0"\<close> to 0 bytes; in general a string that, spaces removed, is
  a decimal integer below \<open>2^53\<close> followed by nothing, \<open>B\<close>, \<open>KB\<close>, \<open>MB\<close>, \<open>GB\<close>, \<open>TB\<close> or
  \<open>PB\<close> is mapped to that integer times the matching power of 1024, when this product is
  below \<open>2^63\<close>.
\<close>

theorem parseFileSize_binary_units:
  "parseFileSize ''512 KB'' = Inr 524288 \<and>
   parseFileSize ''1.5 GB'' = Inr 1610612736 \<and>
   parseFileSize ''0'' = Inr 0 \<and>
   (\<forall>s ds u k. filter (\<lambda>c. c \<noteq> CHR '' '') s = ds @ u \<and> ds \<noteq> [] \<and> list_all isDigit ds \<and>
        (u, k) \<in> set units \<and> decVal ds < 2 ^ 53 \<and> int (decVal ds) * 1024 ^ k < 2 ^ 63 \<longrightarrow>
      parseFileSize s = Inr (int (decVal ds) * 1024 ^ k))"
proof (intro conjI allI impI)
  show "parseFileSize ''512 KB'' = Inr 524288"
    by (simp add: parseFileSize_def sizeRegex_def isDigit_def ParseFloat_def decVal_def
        digitVal_def ToUpper_def toUpperChar_def multiplier_def roundFloat64_def
        ilog2_examples ilog2_one roundHalfEven_def mulFloat64_def toInt64_def Let_def)
  show "parseFileSize ''1.5 GB'' = Inr 1610612736"
    by (simp add: parseFileSize_def sizeRegex_def isDigit_def ParseFloat_def decVal_def
        digitVal_def ToUpper_def toUpperChar_def multiplier_def roundFloat64_def
        ilog2_examples ilog2_one roundHalfEven_def mulFloat64_def toInt64_def Let_def)
  show "parseFileSize ''0'' = Inr 0"
    by (simp add: parseFileSize_def sizeRegex_def isDigit_def ParseFloat_def decVal_def
        digitVal_def ToUpper_def toUpperChar_def multiplier_def roundFloat64_def
        mulFloat64_def toInt64_def Let_def)
next
  fix s ds u k
  assume "filter (\<lambda>c. c \<noteq> CHR '' '') s = ds @ u \<and> ds \<noteq> [] \<and> list_all isDigit ds \<and>
        (u, k) \<in> set units \<and> decVal ds < 2 ^ 53 \<and> int (decVal ds) * 1024 ^ k < 2 ^ 63"
  then show "parseFileSize s = Inr (int (decVal ds) * 1024 ^ k)"
    using parseFileSize_digits_unit by blast
qed

theorem parseFileSize_binary_units_witness:
  "filter (\<lambda>c. c \<noteq> CHR '' '') ''7 MB'' = ''7'' @ ''MB'' \<and> ''7'' \<noteq> [] \<and> list_all isDigit ''7'' \<and>
     (''MB'', 2) \<in> set units \<and> decVal ''7'' < 2 ^ 53 \<and> int (decVal ''7'') * 1024 ^ 2 < 2 ^ 63 \<and>
     parseFileSize ''7 MB'' = Inr 7340032"
proof -
  have h: "filter (\<lambda>c. c \<noteq> CHR '' '') ''7 MB'' = ''7'' @ ''MB'' \<and> ''7'' \<noteq> [] \<and>
      list_all isDigit ''7'' \<and> (''MB'', 2) \<in> set units \<and> decVal ''7'' < 2 ^ 53 \<and>
      int (decVal ''7'') * 1024 ^ 2 < 2 ^ 63"
    by (simp add: isDigit_def units_def decVal_def digitVal_def)
  have "parseFileSize ''7 MB'' = Inr (int (decVal ''7'') * 1024 ^ 2)"
    using parseFileSize_binary_units h by blast
  then show ?thesis using h by (simp add: decVal_def digitVal_def)
qed

section \<open>At most one active task per domain\<close>











text \<open>
  A call of \<open>DownloadTorrentFiles\<close> that nothing interrupts is \<open>enqueueWrite\<close> followed
  by \<open>startDownload\<close> on the list just written.
\<close>

lemma DownloadTorrentFiles_steps:
  "snd (DownloadTorrentFiles (Some magnetLink) launch taskId now selectedFiles fileName f) =
     (case enqueueWrite magnetLink taskId now selectedFiles fileName f of
        (has, l) \<Rightarrow> l # startIfIdle has launch (Content l) taskId)"
  by (simp add: DownloadTorrentFiles_def enqueueWrite_def startIfIdle_def Let_def
      split: sum.splits)




section \<open>The exit of the child process: what the store records\<close>

lemma updFirst_split:
  assumes "find P l = Some t"
  shows "\<exists>xs ys. l = xs @ t # ys \<and> (\<forall>x \<in> set xs. \<not> P x) \<and> P t \<and>
           updFirst P g l = xs @ g t # ys"
  using assms
proof (induction l)
  case Nil
  then show ?case by simp
next
  case (Cons a l)
  show ?case
  proof (cases "P a")
    case True
    with Cons.prems have "a = t" by simp
    with True have "a # l = [] @ t # l \<and> (\<forall>x \<in> set []. \<not> P x) \<and> P t \<and>
        updFirst P g (a # l) = [] @ g t # l" by simp
    then show ?thesis by blast
  next
    case False
    with Cons.prems have "find P l = Some t" by simp
    from Cons.IH [OF this] obtain xs ys where
      "l = xs @ t # ys" "\<forall>x \<in> set xs. \<not> P x" "P t" "updFirst P g l = xs @ g t # ys"
      by blast
    with False have "a # l = (a # xs) @ t # ys \<and> (\<forall>x \<in> set (a # xs). \<not> P x) \<and> P t \<and>
        updFirst P g (a # l) = (a # xs) @ g t # ys" by simp
    then show ?thesis by blast
  qed
qed

lemma updFirst_none: "find P l = None \<Longrightarrow> updFirst P g l = l"
  by (induction l) (auto split: if_splits)

text \<open>
  For downloads: when the task is found cancelled or paused, the exit of the child
  writes nothing for it and only \<open>startNextWaitingTask\<close> runs.
\<close>

lemma download_exit_skips_terminal:
  assumes "load f = Inr l" and "find (hasTaskId taskId) l = Some p"
    and "hasStatus ''cancelled'' p \<or> hasStatus ''paused'' p"
  shows "monitorDownloadExit waitFailed launchNext now taskId f = startNextWaitingTask launchNext f"
  using assms by (simp add: monitorDownloadExit_def)

text \<open>
  Claim C2, transcode half, on the code: a transcode task that a cancel request has
  already set to cancelled is set to failed when the wait on its (killed) process
  returns an error, and to completed when the wait returns none.
\<close>

theorem transcode_exit_overwrites_cancelled:
  "statuses (monitorTranscodeExit (Some ''exit status 1'') None 5 6 ''transcode-1''
      (Content [transcodeCancelled])) = [[''failed'']] \<and>
   statuses (monitorTranscodeExit None None 5 6 ''transcode-1''
      (Content [transcodeCancelled])) = [[''completed'']]"
  by (simp add: statuses_def monitorTranscodeExit_def transcodeExitUpdate_def
      startNextTranscodeTask_def transcodeCancelled_def transcodeA_def newTranscodeTask_def
      Let_def)

text \<open>
  Claim C3 as stated fails in the download domain: after a failed wait the task is set
  to waiting, not failed, and after a clean exit it is set to completed with its
  percentage left as it was.
\<close>

theorem download_exit_not_failed:
  "fields ''status'' (snd (monitorDownloadExit True None ''9'' ''task-1''
      (Content [downloadRunning]))) = [[Some (JStr ''waiting'')]] \<and>
   fields ''status'' (snd (monitorDownloadExit True None ''9'' ''task-1''
      (Content [downloadRunning]))) \<noteq> [[Some (JStr ''failed'')]] \<and>
   fields ''status'' (snd (monitorDownloadExit False None ''9'' ''task-1''
      (Content [downloadRunning]))) = [[Some (JStr ''completed'')]] \<and>
   fields ''percentage'' (snd (monitorDownloadExit False None ''9'' ''task-1''
      (Content [downloadRunning]))) = [[Some (JNum 50)]]"
  by (simp add: fields_def field_def monitorDownloadExit_def downloadExitUpdate_def
      startNextWaitingTask_def startSelected_def startDownload_def isStr_def theStr_def
      downloadRunning_def downloadA_def hasTaskId_def hasStatus_def)


text \<open>
  Claim C3, amended. When the wait on the child process returns and the task is found
  in the store with no cancel request having claimed it (its status is not cancelled,
  nor, for a download, paused), the first task with the id is rewritten and the store
  written. In the transcode domain a wait error sets the status to failed and keeps the
  error text already recorded, or records the text of the wait error when there is
  none; a clean exit sets the status to completed and the progress to 1. In the
  download domain a wait error sets the status to waiting and removes the pid, and a
  clean exit sets the status to completed.
\<close>

theorem exit_outcome_by_domain:
  assumes "load f = Inr l" and "find (\<lambda>t. TaskID t = taskID) l = Some t"
    and "load fd = Inr ld" and "find (hasTaskId taskId) ld = Some p"
    and "\<not> hasStatus ''cancelled'' p" and "\<not> hasStatus ''paused'' p"
    and "Status t \<noteq> ''cancelled''"
  shows "(\<exists>xs ys ws. l = xs @ t # ys \<and> (\<forall>x \<in> set xs. TaskID x \<noteq> taskID) \<and>
            monitorTranscodeExit cmdErr launchNext now nowNext taskID f =
              (xs @ transcodeExitUpdate cmdErr now t # ys) # ws) \<and>
         Status (transcodeExitUpdate (Some e) now t) = ''failed'' \<and>
         Error (transcodeExitUpdate (Some e) now t) = (if Error t = [] then e else Error t) \<and>
         Status (transcodeExitUpdate None now t) = ''completed'' \<and>
         Progress (transcodeExitUpdate None now t) = 1 \<and>
         (\<exists>xs ys ws. ld = xs @ p # ys \<and> (\<forall>x \<in> set xs. \<not> hasTaskId taskId x) \<and>
            snd (monitorDownloadExit waitFailed launchD nowD taskId fd) =
              (xs @ downloadExitUpdate waitFailed nowD p # ys) # ws) \<and>
         downloadExitUpdate True nowD p ''status'' = Some (JStr ''waiting'') \<and>
         downloadExitUpdate True nowD p ''pid'' = None \<and>
         downloadExitUpdate False nowD p ''status'' = Some (JStr ''completed'')"
proof -
  from updFirst_split [OF assms(2), of "transcodeExitUpdate cmdErr now"]
  obtain xs ys where t: "l = xs @ t # ys" "\<forall>x \<in> set xs. TaskID x \<noteq> taskID"
    "updFirst (\<lambda>t. TaskID t = taskID) (transcodeExitUpdate cmdErr now) l
       = xs @ transcodeExitUpdate cmdErr now t # ys"
    by blast
  have "monitorTranscodeExit cmdErr launchNext now nowNext taskID f =
      (xs @ transcodeExitUpdate cmdErr now t # ys) #
        snd (startNextTranscodeTask launchNext nowNext
               (Content (xs @ transcodeExitUpdate cmdErr now t # ys)))"
    using assms(1) t(3) by (simp add: monitorTranscodeExit_def Let_def)
  with t have A: "\<exists>xs ys ws. l = xs @ t # ys \<and> (\<forall>x \<in> set xs. TaskID x \<noteq> taskID) \<and>
            monitorTranscodeExit cmdErr launchNext now nowNext taskID f =
              (xs @ transcodeExitUpdate cmdErr now t # ys) # ws"
    by blast
  from updFirst_split [OF assms(4), of "downloadExitUpdate waitFailed nowD"]
  obtain xs' ys' where p: "ld = xs' @ p # ys'" "\<forall>x \<in> set xs'. \<not> hasTaskId taskId x"
    "updFirst (hasTaskId taskId) (downloadExitUpdate waitFailed nowD) ld
       = xs' @ downloadExitUpdate waitFailed nowD p # ys'"
    by blast
  have "snd (monitorDownloadExit waitFailed launchD nowD taskId fd) =
      (xs' @ downloadExitUpdate waitFailed nowD p # ys') #
        snd (startNextWaitingTask launchD
               (Content (xs' @ downloadExitUpdate waitFailed nowD p # ys')))"
    using assms(3-6) p(3)
    by (simp add: monitorDownloadExit_def Let_def split: prod.splits)
  with p have B: "\<exists>xs ys ws. ld = xs @ p # ys \<and> (\<forall>x \<in> set xs. \<not> hasTaskId taskId x) \<and>
            snd (monitorDownloadExit waitFailed launchD nowD taskId fd) =
              (xs @ downloadExitUpdate waitFailed nowD p # ys) # ws"
    by blast
  have C: "Status (transcodeExitUpdate (Some e) now t) = ''failed''"
    "Error (transcodeExitUpdate (Some e) now t) = (if Error t = [] then e else Error t)"
    "Status (transcodeExitUpdate None now t) = ''completed''"
    "Progress (transcodeExitUpdate None now t) = 1"
    by (simp_all add: transcodeExitUpdate_def)
  have D: "downloadExitUpdate True nowD p ''status'' = Some (JStr ''waiting'')"
    "downloadExitUpdate True nowD p ''pid'' = None"
    "downloadExitUpdate False nowD p ''status'' = Some (JStr ''completed'')"
    by (simp_all add: downloadExitUpdate_def)
  from A B C D show ?thesis by (intro conjI)
qed

theorem exit_outcome_by_domain_witness:
  "load (Content [transcodeRunning]) = Inr [transcodeRunning] \<and>
   find (\<lambda>t. TaskID t = ''transcode-1'') [transcodeRunning] = Some transcodeRunning \<and>
   load (Content [downloadRunning]) = Inr [downloadRunning] \<and>
   find (hasTaskId ''task-1'') [downloadRunning] = Some downloadRunning \<and>
   \<not> hasStatus ''cancelled'' downloadRunning \<and> \<not> hasStatus ''paused'' downloadRunning \<and>
   Status transcodeRunning \<noteq> ''cancelled'' \<and>
   Status (transcodeExitUpdate (Some ''exit status 1'') 5 transcodeRunning) = ''failed'' \<and>
   Error (transcodeExitUpdate (Some ''exit status 1'') 5 transcodeRunning) = ''exit status 1'' \<and>
   Progress (transcodeExitUpdate None 5 transcodeRunning) = 1 \<and>
   downloadExitUpdate True ''9'' downloadRunning ''status'' = Some (JStr ''waiting'')"
proof -
  have h1: "load (Content [transcodeRunning]) = Inr [transcodeRunning]" by simp
  have h2: "find (\<lambda>t. TaskID t = ''transcode-1'') [transcodeRunning] = Some transcodeRunning"
    by (simp add: transcodeRunning_def transcodeA_def newTranscodeTask_def)
  have h3: "load (Content [downloadRunning]) = Inr [downloadRunning]" by simp
  have h4: "find (hasTaskId ''task-1'') [downloadRunning] = Some downloadRunning"
    by (simp add: hasTaskId_def downloadRunning_def downloadA_def)
  have h5: "\<not> hasStatus ''cancelled'' downloadRunning"
    by (simp add: hasStatus_def downloadRunning_def downloadA_def)
  have h6: "\<not> hasStatus ''paused'' downloadRunning"
    by (simp add: hasStatus_def downloadRunning_def downloadA_def)
  have e: "Error transcodeRunning = []"
    by (simp add: transcodeRunning_def transcodeA_def newTranscodeTask_def)
  have h7: "Status transcodeRunning \<noteq> ''cancelled''"
    by (simp add: transcodeRunning_def)
  from exit_outcome_by_domain [OF h1 h2 h3 h4 h5 h6 h7, where e = "''exit status 1''"
      and now = 5 and nowD = "''9''"]
  show ?thesis using h1 h2 h3 h4 h5 h6 h7 e by simp
qed

section \<open>Recovery at startup: a second run\<close>

lemma demoteDownload_not_active: "\<not> hasStatus ''downloading'' (demoteDownload now task)"
  by (simp add: demoteDownload_def hasStatus_def)

lemma demoteDownload_inactive: "\<not> hasStatus ''downloading'' task \<Longrightarrow> demoteDownload now task = task"
  by (simp add: demoteDownload_def)

lemma demoteDownloads_none_active:
  "\<not> list_ex (hasStatus ''downloading'') (map (demoteDownload now) l)"
  by (induction l) (simp_all add: demoteDownload_not_active)

lemma demoteDownloads_fixed:
  "\<not> list_ex (hasStatus ''downloading'') l \<Longrightarrow> map (demoteDownload now) l = l"
  by (induction l) (simp_all add: demoteDownload_inactive)

lemma demoteTranscode_not_active: "Status (demoteTranscode now task) \<noteq> ''transcoding''"
  by (simp add: demoteTranscode_def)

lemma demoteTranscodes_none_active:
  "\<not> list_ex (\<lambda>t. Status t = ''transcoding'') (map (demoteTranscode now) l)"
  by (induction l) (simp_all add: demoteTranscode_not_active)

lemma demoteTranscodes_fixed:
  "\<not> list_ex (\<lambda>t. Status t = ''transcoding'') l \<Longrightarrow> map (demoteTranscode now) l = l"
  by (induction l) (simp_all add: demoteTranscode_def)

lemma demoteDownloads_twice:
  "demoteDownloads now2 (fst (demoteDownloads now1 l)) = (fst (demoteDownloads now1 l), [])"
proof -
  have "map (demoteDownload now2) (map (demoteDownload now1) l) = map (demoteDownload now1) l"
    by (rule demoteDownloads_fixed) (rule demoteDownloads_none_active)
  then show ?thesis
    using demoteDownloads_none_active [of now1 l] by (simp add: demoteDownloads_def Let_def)
qed

lemma demoteTranscodes_twice:
  "demoteTranscodes now2 (fst (demoteTranscodes now1 l)) = (fst (demoteTranscodes now1 l), [])"
proof -
  have "map (demoteTranscode now2) (map (demoteTranscode now1) l) = map (demoteTranscode now1) l"
    by (rule demoteTranscodes_fixed) (rule demoteTranscodes_none_active)
  then show ?thesis
    using demoteTranscodes_none_active [of now1 l] by (simp add: demoteTranscodes_def Let_def)
qed

lemma demote_Nil:
  "demoteDownloads now [] = ([], [])" "demoteTranscodes t [] = ([], [])"
  by (simp_all add: demoteDownloads_def demoteTranscodes_def)

lemma startSelected_no_launch: "startSelected None f task = (pn, ws) \<Longrightarrow> ws = []"
  by (auto simp: startSelected_def startDownload_def split: if_splits)

lemma startupDownloads_no_launch:
  "after f (snd (startupDownloads parseTime None now f)) =
     (case f of Missing \<Rightarrow> Content []
      | Content l \<Rightarrow> Content (fst (demoteDownloads now l))
      | _ \<Rightarrow> f)"
proof (cases f)
  case (Content l)
  have "snd (startupDownloads parseTime None now f) = snd (demoteDownloads now l)"
    by (auto simp: startupDownloads_def Content split: prod.splits option.splits
        dest: startSelected_no_launch)
  then show ?thesis
    by (simp add: Content after_def demoteDownloads_def Let_def demoteDownloads_fixed)
qed (simp_all add: startupDownloads_def after_def)

lemma startupTranscodes_no_launch:
  "after f (startupTranscodes None now nowStart f) =
     (case f of Missing \<Rightarrow> Content []
      | Content l \<Rightarrow> Content (fst (demoteTranscodes now l))
      | _ \<Rightarrow> f)"
proof (cases f)
  case (Content l)
  have "startupTranscodes None now nowStart f = snd (demoteTranscodes now l)"
    by (auto simp: startupTranscodes_def startTranscode_def Content
        split: prod.splits option.splits sum.splits)
  then show ?thesis
    by (simp add: Content after_def demoteTranscodes_def Let_def demoteTranscodes_fixed)
qed (simp_all add: startupTranscodes_def after_def)

lemma after_Nil: "after f [] = f"
  by (simp add: after_def)

lemma startupDownloads_panic:
  "fst (startupDownloads parseTime None now (Content l)) =
     (case earliestWaiting parseTime (map (demoteDownload now) l) None of
        None \<Rightarrow> None
      | Some (task, tm) \<Rightarrow>
          if isStr (task ''taskId'') \<and> isStr (task ''magnetLink'') \<and> isStr (task ''outputDir'')
          then None else Some Panic)"
  by (simp add: startupDownloads_def demoteDownloads_def Let_def startSelected_def
      startDownload_def split: option.splits prod.splits)

lemma startupDownloads_panic_again:
  "fst (startupDownloads parseTime None now2
          (after (Content l) (snd (startupDownloads parseTime None now1 (Content l)))))
     = fst (startupDownloads parseTime None now1 (Content l))"
proof -
  have "map (demoteDownload now2) (map (demoteDownload now1) l) = map (demoteDownload now1) l"
    by (rule demoteDownloads_fixed) (rule demoteDownloads_none_active)
  then show ?thesis
    by (simp only: startupDownloads_no_launch storeFile.case startupDownloads_panic
        demoteDownloads_def Let_def fst_conv)
qed


text \<open>
  The demotion step of the startup recovery is idempotent in both domains: a second pass
  over the list left by the first returns the same list and writes nothing, since the
  first pass leaves no task in the active status; the first pass turns every active task
  into a waiting task without pid and leaves the other tasks as they are. When no
  process can be launched and the download store file exists, running the whole of
  \<open>startup\<close> twice leaves the two store files as running it once leaves them.
\<close>

theorem recovery_demotion_idempotent:
  "demoteDownloads now2 (fst (demoteDownloads now1 l)) = (fst (demoteDownloads now1 l), []) \<and>
   demoteTranscodes t2 (fst (demoteTranscodes t1 k)) = (fst (demoteTranscodes t1 k), []) \<and>
   activeDownloads (fst (demoteDownloads now1 l)) = 0 \<and>
   activeTranscodes (fst (demoteTranscodes t1 k)) = 0 \<and>
   fst (demoteDownloads now1 l) = map (demoteDownload now1) l \<and>
   fst (demoteTranscodes t1 k) = map (demoteTranscode t1) k \<and>
   (hasStatus ''downloading'' task \<longrightarrow>
      demoteDownload now1 task = (task(''status'' \<mapsto> JStr ''waiting'', ''endTime'' \<mapsto> JStr now1))
                                   (''pid'' := None)) \<and>
   (\<not> hasStatus ''downloading'' task \<longrightarrow> demoteDownload now1 task = task) \<and>
   (Status ttask = ''transcoding'' \<longrightarrow>
      demoteTranscode t1 ttask = ttask\<lparr>Status := ''waiting'', EndTime := t1, PID := 0\<rparr>) \<and>
   (Status ttask \<noteq> ''transcoding'' \<longrightarrow> demoteTranscode t1 ttask = ttask) \<and>
   (fd \<noteq> Missing \<longrightarrow>
      filesAfter (fst (filesAfter fd ft (startup parseTime None None now1 t1 s1 fd ft)))
                 (snd (filesAfter fd ft (startup parseTime None None now1 t1 s1 fd ft)))
        (startup parseTime None None now2 t2 s2
           (fst (filesAfter fd ft (startup parseTime None None now1 t1 s1 fd ft)))
           (snd (filesAfter fd ft (startup parseTime None None now1 t1 s1 fd ft))))
      = filesAfter fd ft (startup parseTime None None now1 t1 s1 fd ft))"
proof (intro conjI impI)
  show "activeDownloads (fst (demoteDownloads now1 l)) = 0"
    using demoteDownloads_none_active [of now1 l]
    by (simp add: demoteDownloads_def Let_def activeDownloads_def list_ex_iff filter_empty_conv)
  show "activeTranscodes (fst (demoteTranscodes t1 k)) = 0"
    using demoteTranscodes_none_active [of t1 k]
    by (simp add: demoteTranscodes_def Let_def activeTranscodes_def list_ex_iff filter_empty_conv)
  show "demoteDownloads now2 (fst (demoteDownloads now1 l)) = (fst (demoteDownloads now1 l), [])"
    by (rule demoteDownloads_twice)
  show "demoteTranscodes t2 (fst (demoteTranscodes t1 k)) = (fst (demoteTranscodes t1 k), [])"
    by (rule demoteTranscodes_twice)
  show "fst (demoteDownloads now1 l) = map (demoteDownload now1) l"
    by (simp add: demoteDownloads_def Let_def)
  show "fst (demoteTranscodes t1 k) = map (demoteTranscode t1) k"
    by (simp add: demoteTranscodes_def Let_def)
  { assume "hasStatus ''downloading'' task"
    then show "demoteDownload now1 task =
        (task(''status'' \<mapsto> JStr ''waiting'', ''endTime'' \<mapsto> JStr now1))(''pid'' := None)"
      by (simp add: demoteDownload_def) }
  { assume "\<not> hasStatus ''downloading'' task"
    then show "demoteDownload now1 task = task" by (simp add: demoteDownload_def) }
  { assume "Status ttask = ''transcoding''"
    then show "demoteTranscode t1 ttask = ttask\<lparr>Status := ''waiting'', EndTime := t1, PID := 0\<rparr>"
      by (simp add: demoteTranscode_def) }
  { assume "Status ttask \<noteq> ''transcoding''"
    then show "demoteTranscode t1 ttask = ttask" by (simp add: demoteTranscode_def) }
next
  assume nm: "fd \<noteq> Missing"
  let ?r1 = "startup parseTime None None now1 t1 s1 fd ft"
  let ?fd1 = "fst (filesAfter fd ft ?r1)" and ?ft1 = "snd (filesAfter fd ft ?r1)"
  show "filesAfter ?fd1 ?ft1 (startup parseTime None None now2 t2 s2 ?fd1 ?ft1)
      = filesAfter fd ft ?r1"
  proof (cases fd)
    case Missing
    with nm show ?thesis by simp
  next
    case Unreadable
    then show ?thesis
      by (simp add: startup_def startupDownloads_def filesAfter_def after_def)
  next
    case Undecodable
    then show ?thesis
      by (simp add: startup_def startupDownloads_def filesAfter_def after_def)
  next
    case (Content l)
    let ?d1 = "startupDownloads parseTime None now1 (Content l)"
    let ?l1 = "fst (demoteDownloads now1 l)"
    let ?R1 = "startup parseTime None None now1 t1 s1 (Content l) ft"
    have a1: "after (Content l) (snd ?d1) = Content ?l1"
      using startupDownloads_no_launch [of "Content l" parseTime now1] by simp
    have a2: "after (Content ?l1) (snd (startupDownloads parseTime None now2 (Content ?l1)))
        = Content ?l1"
      using startupDownloads_no_launch [of "Content ?l1" parseTime now2]
      by (simp add: demoteDownloads_twice)
    have p2: "fst (startupDownloads parseTime None now2 (Content ?l1)) = fst ?d1"
      using startupDownloads_panic_again [of parseTime now2 l now1] by (simp only: a1)
    have t2: "after (after ft (startupTranscodes None t1 s1 ft))
         (startupTranscodes None t2 s2 (after ft (startupTranscodes None t1 s1 ft)))
        = after ft (startupTranscodes None t1 s1 ft)"
      by (cases ft) (simp_all add: startupTranscodes_no_launch demoteTranscodes_twice demote_Nil)
    have "filesAfter (fst (filesAfter (Content l) ft ?R1)) (snd (filesAfter (Content l) ft ?R1))
        (startup parseTime None None now2 t2 s2 (fst (filesAfter (Content l) ft ?R1))
           (snd (filesAfter (Content l) ft ?R1)))
      = filesAfter (Content l) ft ?R1"
    proof (cases "fst ?d1")
      case None
      then have r1: "?R1 = (None, snd ?d1, startupTranscodes None t1 s1 ft)"
        by (cases ?d1) (simp add: startup_def)
      have f1: "filesAfter (Content l) ft ?R1
          = (Content ?l1, after ft (startupTranscodes None t1 s1 ft))"
        by (simp add: r1 filesAfter_def a1)
      from None p2 have "fst (startupDownloads parseTime None now2 (Content ?l1)) = None"
        by simp
      then have r2: "startup parseTime None None now2 t2 s2 (Content ?l1)
            (after ft (startupTranscodes None t1 s1 ft)) =
          (None, snd (startupDownloads parseTime None now2 (Content ?l1)),
           startupTranscodes None t2 s2 (after ft (startupTranscodes None t1 s1 ft)))"
        by (cases "startupDownloads parseTime None now2 (Content ?l1)") (simp add: startup_def)
      show ?thesis
        unfolding f1 fst_conv snd_conv r2
        by (simp add: filesAfter_def a2 t2)
    next
      case (Some pn)
      then have r1: "?R1 = (Some pn, snd ?d1, [])"
        by (cases ?d1) (simp add: startup_def)
      have f1: "filesAfter (Content l) ft ?R1 = (Content ?l1, ft)"
        by (simp add: r1 filesAfter_def a1 after_Nil)
      from Some p2 have "fst (startupDownloads parseTime None now2 (Content ?l1)) = Some pn"
        by simp
      then have r2: "startup parseTime None None now2 t2 s2 (Content ?l1) ft =
          (Some pn, snd (startupDownloads parseTime None now2 (Content ?l1)), [])"
        by (cases "startupDownloads parseTime None now2 (Content ?l1)") (simp add: startup_def)
      show ?thesis
        unfolding f1 fst_conv snd_conv r2
        by (simp add: filesAfter_def a2 after_Nil)
    qed
    then show ?thesis by (simp only: Content)
  qed
qed

theorem recovery_demotion_idempotent_witness:
  "hasStatus ''downloading'' downloadRunning \<and> Status transcodeRunning = ''transcoding'' \<and>
   fields ''status'' [fst (demoteDownloads ''8'' [downloadA, downloadRunning])]
     = [[Some (JStr ''waiting''), Some (JStr ''waiting'')]] \<and>
   fields ''pid'' [fst (demoteDownloads ''8'' [downloadA, downloadRunning])] = [[None, None]] \<and>
   snd (demoteDownloads ''9'' (fst (demoteDownloads ''8'' [downloadA, downloadRunning]))) = [] \<and>
   statuses [fst (demoteTranscodes 8 [transcodeRunning])] = [[''waiting'']] \<and>
   snd (demoteTranscodes 9 (fst (demoteTranscodes 8 [transcodeRunning]))) = [] \<and>
   Content [downloadA, downloadRunning] \<noteq> Missing"
proof -
  have h1: "hasStatus ''downloading'' downloadRunning"
    by (simp add: hasStatus_def downloadRunning_def)
  have h2: "Status transcodeRunning = ''transcoding''"
    by (simp add: transcodeRunning_def)
  have e1: "fields ''status'' [fst (demoteDownloads ''8'' [downloadA, downloadRunning])]
     = [[Some (JStr ''waiting''), Some (JStr ''waiting'')]]"
    by (simp add: fields_def field_def demoteDownloads_def demoteDownload_def hasStatus_def
        downloadRunning_def downloadA_def Let_def)
  have e2: "fields ''pid'' [fst (demoteDownloads ''8'' [downloadA, downloadRunning])] = [[None, None]]"
    by (simp add: fields_def field_def demoteDownloads_def demoteDownload_def hasStatus_def
        downloadRunning_def downloadA_def Let_def)
  have e3: "statuses [fst (demoteTranscodes 8 [transcodeRunning])] = [[''waiting'']]"
    by (simp add: statuses_def demoteTranscodes_def demoteTranscode_def transcodeRunning_def Let_def)
  note T = recovery_demotion_idempotent [where l = "[downloadA, downloadRunning]"
      and ?now1.0 = "''8''" and ?now2.0 = "''9''" and k = "[transcodeRunning]" and ?t1.0 = 8
      and ?t2.0 = 9 and task = downloadRunning and ttask = transcodeRunning]
  from T have "demoteDownloads ''9'' (fst (demoteDownloads ''8'' [downloadA, downloadRunning]))
      = (fst (demoteDownloads ''8'' [downloadA, downloadRunning]), [])"
    by (rule conjunct1)
  then have c1: "snd (demoteDownloads ''9''
      (fst (demoteDownloads ''8'' [downloadA, downloadRunning]))) = []"
    by (simp only: snd_conv)
  from T have "demoteTranscodes 9 (fst (demoteTranscodes 8 [transcodeRunning]))
      = (fst (demoteTranscodes 8 [transcodeRunning]), [])"
    by (rule conjunct2 [THEN conjunct1])
  then have c2: "snd (demoteTranscodes 9 (fst (demoteTranscodes 8 [transcodeRunning]))) = []"
    by (simp only: snd_conv)
  have nm: "Content [downloadA, downloadRunning] \<noteq> Missing" by simp
  from h1 h2 e1 e2 c1 e3 c2 nm show ?thesis by (intro conjI)
qed


section \<open>Progress fractions of a transcode\<close>

lemma parseDecimal_examples:
  "parseDecimal ''10.000000'' = 10" "parseDecimal ''00'' = 0" "parseDecimal ''10.00'' = 10"
  by (simp_all add: parseDecimal_def sizeRegex_def isDigit_def decimalValue_def decVal_def
      digitVal_def)

lemma split_out_time:
  "splitKeyValue ''out_time=00:00:10.000000'' = Some (''out_time'', ''00:00:10.000000'')"
  "splitOn (CHR '':'') ''00:00:10.000000'' = [''00'', ''00'', ''10.000000'']"
  by (simp_all add: splitKeyValue_def)

lemma duration_example:
  "durationRegex ''  Duration: 00:00:10.00, start: 0.000000'' = Some (''00'', ''00'', ''10.00'')"
  by (simp add: matchDurationAt_def isDigit_def Let_def)

lemma no_error_example:
  "\<not> Contains ''  Duration: 00:00:10.00, start: 0.000000'' ''Error''"
  "\<not> Contains ''  Duration: 00:00:10.00, start: 0.000000'' ''error''"
  by simp_all

text \<open>
  Claim C5 as stated fails for the elapsed-time tier: with a total duration of ten
  seconds known, the line \<open>out_time=00:00:10.000000\<close> makes the reader record the
  fraction 1, above 0.99, though no \<open>progress=end\<close> line was read; so does the arrival of
  the duration on the error stream after an elapsed time of twelve seconds.
\<close>

theorem time_tier_reaches_one_before_end:
  "snd (stdoutLine parseDecimal parseDigits monitorHalf ''out_time=00:00:10.000000'')
     = [UpdateProgress 1 []] \<and>
   snd (stderrLine parseDecimal monitorNoDuration ''  Duration: 00:00:10.00, start: 0.000000'')
     = [UpdateProgress 1 []] \<and>
   (1::real) > 0.99"
  by (simp add: stdoutLine_def applyField_def split_out_time parseDecimal_examples
      calculateProgress_def monitorHalf_def monitorNoDuration_def Let_def stderrLine_def
      duration_example no_error_example del: Contains.simps durationRegex.simps)

lemma calculateProgress_bounds:
  assumes "calculateProgress m = (m', p, ty)"
  shows "0 \<le> p" and "p \<le> 1" and "ty \<noteq> ByTime \<Longrightarrow> p \<le> 0.99"
    and "ty = ByTime \<Longrightarrow> totalDuration m \<le> currentTime m \<Longrightarrow> p = 1"
    and "ty = ByTime \<Longrightarrow> currentTime m < totalDuration m \<Longrightarrow> p = currentTime m / totalDuration m"
  using assms
  by (auto simp: calculateProgress_def Let_def divide_less_0_iff split: if_splits)

lemma applyField_updates:
  assumes "applyField pf pint m key val = (m1, u1)" and "UpdateProgress p e \<in> set u1"
  shows "p = 1 \<and> key = ''progress'' \<and> val = ''end''"
  using assms
  by (auto simp: applyField_def split: if_splits list.splits option.splits)

lemma applyField_end:
  "applyField pf pint m ''progress'' ''end'' = (m\<lparr>currentProgress := 1\<rparr>, [UpdateProgress 1 []])"
  by (simp add: applyField_def)


lemma stderrLine_update:
  assumes "\<not> Contains line ''Error''" and "\<not> Contains line ''error''"
    and "UpdateProgress q e \<in> set (snd (stderrLine pf m line))"
  obtains hours minutes seconds where
    "durationRegex line = Some (hours, minutes, seconds)" and "0 < currentTime m"
    and "totalDuration (fst (stderrLine pf m line))
           = pf hours * 3600 + pf minutes * 60 + pf seconds"
    and "q = (if totalDuration (fst (stderrLine pf m line)) = 0 then 1
              else if currentTime m / totalDuration (fst (stderrLine pf m line)) > 1 then 1
              else currentTime m / totalDuration (fst (stderrLine pf m line)))"
  using assms
  by (auto simp: stderrLine_def Let_def split: if_splits option.splits)

text \<open>
  Claim C5, amended. A fraction computed by the frame-count tier or by the
  fixed-increment tier never exceeds 0.99. A fraction computed by the elapsed-time tier
  lies in \<open>[0, 1]\<close>: it is the elapsed time over the total duration, and exactly 1 once
  the elapsed time has reached the total duration. Every fraction a line of the standard
  output records lies in \<open>[0, 1]\<close>, and the line \<open>progress=end\<close> records exactly 1 and
  leaves the current progress at 1. The fraction recorded when the duration arrives on
  the error stream is at most 1; the three groups of the duration being unsigned
  numerals, whose values are not negative, it lies in \<open>[0, 1]\<close>, is the elapsed time
  over the total duration, and is exactly 1 once the elapsed time has reached the total
  duration.
\<close>

theorem progress_fraction_bounds:
  "(calculateProgress m = (m', p, ty) \<longrightarrow>
      0 \<le> p \<and> p \<le> 1 \<and> (ty \<noteq> ByTime \<longrightarrow> p \<le> 0.99) \<and>
      (ty = ByTime \<and> totalDuration m \<le> currentTime m \<longrightarrow> p = 1) \<and>
      (ty = ByTime \<and> currentTime m < totalDuration m \<longrightarrow> p = currentTime m / totalDuration m)) \<and>
   (UpdateProgress q e \<in> set (snd (stdoutLine pf pint m line)) \<longrightarrow> 0 \<le> q \<and> q \<le> 1) \<and>
   (splitKeyValue line = Some (''progress'', ''end'') \<longrightarrow>
      (\<exists>us. snd (stdoutLine pf pint m line) = UpdateProgress 1 [] # us) \<and>
      currentProgress (fst (stdoutLine pf pint m line)) = 1) \<and>
   (\<not> Contains line ''Error'' \<and> \<not> Contains line ''error'' \<and>
    UpdateProgress q e \<in> set (snd (stderrLine pf m line)) \<longrightarrow> q \<le> 1) \<and>
   (\<not> Contains line ''Error'' \<and> \<not> Contains line ''error'' \<and>
    (\<forall>hours minutes seconds. durationRegex line = Some (hours, minutes, seconds) \<longrightarrow>
       0 \<le> pf hours \<and> 0 \<le> pf minutes \<and> 0 \<le> pf seconds) \<and>
    UpdateProgress q e \<in> set (snd (stderrLine pf m line)) \<longrightarrow>
      0 \<le> q \<and> q \<le> 1 \<and>
      (totalDuration (fst (stderrLine pf m line)) \<le> currentTime m \<longrightarrow> q = 1) \<and>
      (currentTime m < totalDuration (fst (stderrLine pf m line)) \<longrightarrow>
         q = currentTime m / totalDuration (fst (stderrLine pf m line))))"
proof (intro conjI impI)
  assume c: "calculateProgress m = (m', p, ty)"
  from calculateProgress_bounds(1,2) [OF c] show "0 \<le> p" and "p \<le> 1" .
  { assume "ty \<noteq> ByTime"
    with calculateProgress_bounds(3) [OF c] show "p \<le> 0.99" . }
  { assume "ty = ByTime \<and> totalDuration m \<le> currentTime m"
    with calculateProgress_bounds(4) [OF c] show "p = 1" by blast }
  { assume "ty = ByTime \<and> currentTime m < totalDuration m"
    with calculateProgress_bounds(5) [OF c] show "p = currentTime m / totalDuration m" by blast }
next
  assume u: "UpdateProgress q e \<in> set (snd (stdoutLine pf pint m line))"
  then obtain key val m1 u1 m2 cp ty2 where
    a: "applyField pf pint m key val = (m1, u1)" and
    c: "calculateProgress m1 = (m2, cp, ty2)" and
    q: "UpdateProgress q e \<in> set u1 \<or> q = cp"
    by (auto simp: stdoutLine_def split: option.splits prod.splits if_splits)
  from q have "q = 1 \<or> q = cp"
    using applyField_updates [OF a] by blast
  then show "0 \<le> q" and "q \<le> 1"
    using calculateProgress_bounds(1,2) [OF c] by auto
next
  assume s: "splitKeyValue line = Some (''progress'', ''end'')"
  obtain m2 cp ty2 where c: "calculateProgress (m\<lparr>currentProgress := 1\<rparr>) = (m2, cp, ty2)"
    by (cases "calculateProgress (m\<lparr>currentProgress := 1\<rparr>)") auto
  from c have cur: "currentProgress m2 = 1"
    by (auto simp: calculateProgress_def Let_def split: if_splits)
  from calculateProgress_bounds(2) [OF c] have le: "cp \<le> 1" .
  show "\<exists>us. snd (stdoutLine pf pint m line) = UpdateProgress 1 [] # us"
    by (simp add: stdoutLine_def s applyField_end c)
  show "currentProgress (fst (stdoutLine pf pint m line)) = 1"
    using cur le by (simp add: stdoutLine_def s applyField_end c)
next
  assume "\<not> Contains line ''Error'' \<and> \<not> Contains line ''error'' \<and>
    UpdateProgress q e \<in> set (snd (stderrLine pf m line))"
  then show "q \<le> 1"
    by (auto simp: stderrLine_def Let_def split: if_splits option.splits)
next
  assume h: "\<not> Contains line ''Error'' \<and> \<not> Contains line ''error'' \<and>
    (\<forall>hours minutes seconds. durationRegex line = Some (hours, minutes, seconds) \<longrightarrow>
       0 \<le> pf hours \<and> 0 \<le> pf minutes \<and> 0 \<le> pf seconds) \<and>
    UpdateProgress q e \<in> set (snd (stderrLine pf m line))"
  let ?total = "totalDuration (fst (stderrLine pf m line))"
  from h have ne: "\<not> Contains line ''Error''" "\<not> Contains line ''error''"
    and u: "UpdateProgress q e \<in> set (snd (stderrLine pf m line))"
    by blast+
  from stderrLine_update [OF ne u] obtain hours minutes seconds where
    d: "durationRegex line = Some (hours, minutes, seconds)" and ct: "0 < currentTime m"
    and t: "?total = pf hours * 3600 + pf minutes * 60 + pf seconds"
    and q: "q = (if ?total = 0 then 1 else if currentTime m / ?total > 1 then 1
                 else currentTime m / ?total)"
    by blast
  from h d have "0 \<le> pf hours" "0 \<le> pf minutes" "0 \<le> pf seconds" by blast+
  with t have nn: "0 \<le> ?total" by simp
  have R: "0 \<le> q \<and> q \<le> 1 \<and> (?total \<le> currentTime m \<longrightarrow> q = 1) \<and>
      (currentTime m < ?total \<longrightarrow> q = currentTime m / ?total)"
  proof (cases "?total = 0")
    case True
    with q ct show ?thesis by simp
  next
    case False
    with nn have pos: "0 < ?total" by simp
    show ?thesis
    proof (cases "currentTime m / ?total > 1")
      case True
      with pos have "?total < currentTime m" by (simp add: less_divide_eq)
      with q False True show ?thesis by simp
    next
      case le: False
      with q False have qq: "q = currentTime m / ?total" by simp
      from le pos have c: "currentTime m \<le> ?total" by (simp add: less_divide_eq not_less)
      from ct pos have "0 \<le> currentTime m / ?total" by simp
      moreover from le have "currentTime m / ?total \<le> 1" by simp
      moreover have "?total \<le> currentTime m \<longrightarrow> currentTime m / ?total = 1"
        using c pos by auto
      ultimately show ?thesis using qq by simp
    qed
  qed
  from R show "0 \<le> q" and "q \<le> 1" by simp_all
  { assume "?total \<le> currentTime m"
    with R show "q = 1" by simp }
  { assume "currentTime m < ?total"
    with R show "q = currentTime m / ?total" by simp }
qed

theorem progress_fraction_bounds_witness:
  "calculateProgress monitorHalf = (monitorHalf, 0.5, ByTime) \<and>
   calculateProgress (monitorHalf\<lparr>hasTotalDuration := False, currentFrame := 99500\<rparr>)
     = (monitorHalf\<lparr>hasTotalDuration := False, currentFrame := 99500\<rparr>, 0.99, ByFrames) \<and>
   splitKeyValue ''progress=end'' = Some (''progress'', ''end'') \<and>
   currentProgress (fst (stdoutLine parseDecimal parseDigits monitorHalf ''progress=end'')) = 1 \<and>
   UpdateProgress 1 [] \<in> set (snd (stdoutLine parseDecimal parseDigits monitorHalf
       ''out_time=00:00:10.000000'')) \<and>
   \<not> Contains ''  Duration: 00:00:20.00, start: 0.000000'' ''Error'' \<and>
   \<not> Contains ''  Duration: 00:00:20.00, start: 0.000000'' ''error'' \<and>
   durationRegex ''  Duration: 00:00:20.00, start: 0.000000'' = Some (''00'', ''00'', ''20.00'') \<and>
   0 \<le> parseDecimal ''00'' \<and> 0 \<le> parseDecimal ''20.00'' \<and>
   snd (stderrLine parseDecimal monitorNoDuration ''  Duration: 00:00:20.00, start: 0.000000'')
     = [UpdateProgress 0.6 []] \<and>
   currentTime monitorNoDuration
     < totalDuration (fst (stderrLine parseDecimal monitorNoDuration
         ''  Duration: 00:00:20.00, start: 0.000000''))"
proof -
  let ?line = "''  Duration: 00:00:20.00, start: 0.000000''"
  have e1: "\<not> Contains ?line ''Error''" and e2: "\<not> Contains ?line ''error''"
    by simp_all
  have d: "durationRegex ?line = Some (''00'', ''00'', ''20.00'')"
    by (simp add: matchDurationAt_def isDigit_def Let_def)
  have pd: "parseDecimal ''00'' = 0" "parseDecimal ''20.00'' = 20"
    by (simp_all add: parseDecimal_def sizeRegex_def isDigit_def decimalValue_def decVal_def
        digitVal_def)
  have nn: "0 \<le> parseDecimal ''00''" "0 \<le> parseDecimal ''20.00''"
    by (simp_all add: pd)
  have r: "stderrLine parseDecimal monitorNoDuration ?line =
      (monitorNoDuration\<lparr>totalDuration := 20, hasTotalDuration := True, currentProgress := 0.6\<rparr>,
       [UpdateProgress 0.6 []])"
    by (simp add: stderrLine_def e1 e2 d pd monitorNoDuration_def Let_def
        del: Contains.simps durationRegex.simps)
  have u: "UpdateProgress 0.6 [] \<in> set (snd (stderrLine parseDecimal monitorNoDuration ?line))"
    by (simp add: r)
  have g: "\<forall>hours minutes seconds. durationRegex ?line = Some (hours, minutes, seconds) \<longrightarrow>
      0 \<le> parseDecimal hours \<and> 0 \<le> parseDecimal minutes \<and> 0 \<le> parseDecimal seconds"
    using nn by (simp add: d del: durationRegex.simps)
  from progress_fraction_bounds [where m = monitorNoDuration and line = ?line
      and pf = parseDecimal and q = "0.6" and e = "[]"] e1 e2 g u
  have b: "currentTime monitorNoDuration
      < totalDuration (fst (stderrLine parseDecimal monitorNoDuration ?line)) \<longrightarrow>
    (0.6::real) = currentTime monitorNoDuration
      / totalDuration (fst (stderrLine parseDecimal monitorNoDuration ?line))"
    by blast
  have lt: "currentTime monitorNoDuration
      < totalDuration (fst (stderrLine parseDecimal monitorNoDuration ?line))"
  proof -
    have td: "totalDuration (fst (stderrLine parseDecimal monitorNoDuration ?line)) = 20"
      by (simp add: r)
    have ct: "currentTime monitorNoDuration = 12"
      by (simp add: monitorNoDuration_def)
    show ?thesis unfolding td ct by simp
  qed
  have s: "snd (stderrLine parseDecimal monitorNoDuration ?line) = [UpdateProgress 0.6 []]"
    by (simp add: r)
  have h1: "calculateProgress monitorHalf = (monitorHalf, 0.5, ByTime)"
    by (simp add: calculateProgress_def monitorHalf_def Let_def)
  have h2: "calculateProgress (monitorHalf\<lparr>hasTotalDuration := False, currentFrame := 99500\<rparr>)
     = (monitorHalf\<lparr>hasTotalDuration := False, currentFrame := 99500\<rparr>, 0.99, ByFrames)"
    by (simp add: calculateProgress_def monitorHalf_def Let_def)
  have h3: "splitKeyValue ''progress=end'' = Some (''progress'', ''end'')"
    by (simp add: splitKeyValue_def)
  have h4: "UpdateProgress 1 [] \<in> set (snd (stdoutLine parseDecimal parseDigits monitorHalf
       ''out_time=00:00:10.000000''))"
    by (simp add: stdoutLine_def applyField_def split_out_time parseDecimal_examples
        calculateProgress_def monitorHalf_def Let_def)
  from progress_fraction_bounds [where m = monitorHalf and line = "''progress=end''"
      and pf = parseDecimal and pint = parseDigits] h3
  have "currentProgress (fst (stdoutLine parseDecimal parseDigits monitorHalf ''progress=end'')) = 1"
    by blast
  with h1 h2 h3 h4 e1 e2 d nn s lt show ?thesis by (intro conjI)
qed

section \<open>Which waiting task is started\<close>

text \<open>
  Claim C7 as stated fails after a terminal transition. The transcode store below is the
  one left when the first task of the list, enqueued before the second, was started
  later (\<open>startTranscode\<close> sets the start time) and then demoted by a recovery. On it
  \<open>startNextTranscodeTask\<close> starts the first waiting task of the list, the one with the
  later start time, while \<open>startup\<close> on the same store starts the other one.
\<close>

theorem promote_next_ignores_start_time:
  "statuses (snd (startNextTranscodeTask (Some 77) 20 (Content [transcodeLate, transcodeEarly])))
     = [[''transcoding'', ''waiting'']] \<and>
   StartTime transcodeEarly < StartTime transcodeLate \<and>
   taskIds (earliestWaitingTranscode [transcodeLate, transcodeEarly] None) = Some ''transcode-3'' \<and>
   statuses (snd (snd (startup parseDigits None (Some 77) ''20'' 20 20 (Content [])
                         (Content [transcodeLate, transcodeEarly]))))
     = [[''waiting'', ''transcoding'']]"
proof (intro conjI)
  show "statuses (snd (startNextTranscodeTask (Some 77) 20 (Content [transcodeLate, transcodeEarly])))
     = [[''transcoding'', ''waiting'']]"
    by (simp add: statuses_def startNextTranscodeTask_def startTranscode_def transcodeLate_def
        transcodeEarly_def newTranscodeTask_def Let_def)
  show "StartTime transcodeEarly < StartTime transcodeLate"
    by (simp add: transcodeLate_def transcodeEarly_def newTranscodeTask_def)
  show "taskIds (earliestWaitingTranscode [transcodeLate, transcodeEarly] None) = Some ''transcode-3''"
    by (simp add: taskIds_def transcodeLate_def transcodeEarly_def newTranscodeTask_def)
  have "startupDownloads parseDigits None ''20'' (Content []) = (None, [])"
    by (simp add: startupDownloads_def demoteDownloads_def)
  then have "snd (snd (startup parseDigits None (Some 77) ''20'' 20 20 (Content [])
                         (Content [transcodeLate, transcodeEarly])))
       = startupTranscodes (Some 77) 20 20 (Content [transcodeLate, transcodeEarly])"
    by (simp add: startup_def)
  moreover have "statuses (startupTranscodes (Some 77) 20 20 (Content [transcodeLate, transcodeEarly]))
       = [[''waiting'', ''transcoding'']]"
    by (simp add: statuses_def startupTranscodes_def demoteTranscodes_def demoteTranscode_def
        startTranscode_def after_def transcodeLate_def transcodeEarly_def newTranscodeTask_def
        Let_def)
  ultimately show "statuses (snd (snd (startup parseDigits None (Some 77) ''20'' 20 20 (Content [])
                         (Content [transcodeLate, transcodeEarly]))))
     = [[''waiting'', ''transcoding'']]"
    by simp
qed

lemma find_first:
  assumes "l = xs @ t # ys" and "P t" and "\<forall>u \<in> set xs. \<not> P u"
  shows "find P l = Some t"
  using assms by (induction xs arbitrary: l) auto

lemma earliestBy_Some:
  assumes "earliestBy key l acc = Some (t, tm)"
  shows "(acc = Some (t, tm) \<and> (\<forall>u \<in> set l. \<forall>tu. key u = Some tu \<longrightarrow> tm \<le> tu)) \<or>
         (\<exists>xs ys. l = xs @ t # ys \<and> key t = Some tm \<and>
            (\<forall>u \<in> set xs. \<forall>tu. key u = Some tu \<longrightarrow> tm < tu) \<and>
            (\<forall>u \<in> set ys. \<forall>tu. key u = Some tu \<longrightarrow> tm \<le> tu) \<and>
            (\<forall>a ta. acc = Some (a, ta) \<longrightarrow> tm < ta))"
  using assms
proof (induction l arbitrary: acc)
  case Nil
  then show ?case by simp
next
  case (Cons x l)
  let ?fromList = "\<lambda>l acc. \<exists>xs ys. l = xs @ t # ys \<and> key t = Some tm \<and>
            (\<forall>u \<in> set xs. \<forall>tu. key u = Some tu \<longrightarrow> tm < tu) \<and>
            (\<forall>u \<in> set ys. \<forall>tu. key u = Some tu \<longrightarrow> tm \<le> tu) \<and>
            (\<forall>a ta. acc = Some (a, ta) \<longrightarrow> tm < ta)"
  show ?case
  proof (cases "key x")
    case None
    with Cons.prems have "earliestBy key l acc = Some (t, tm)" by simp
    from Cons.IH [OF this] show ?thesis
    proof
      assume "acc = Some (t, tm) \<and> (\<forall>u \<in> set l. \<forall>tu. key u = Some tu \<longrightarrow> tm \<le> tu)"
      with None show ?thesis by simp
    next
      assume "?fromList l acc"
      then obtain xs ys where *: "l = xs @ t # ys" "key t = Some tm"
        "\<forall>u \<in> set xs. \<forall>tu. key u = Some tu \<longrightarrow> tm < tu"
        "\<forall>u \<in> set ys. \<forall>tu. key u = Some tu \<longrightarrow> tm \<le> tu"
        "\<forall>a ta. acc = Some (a, ta) \<longrightarrow> tm < ta" by blast
      with None have "x # l = (x # xs) @ t # ys \<and> key t = Some tm \<and>
            (\<forall>u \<in> set (x # xs). \<forall>tu. key u = Some tu \<longrightarrow> tm < tu) \<and>
            (\<forall>u \<in> set ys. \<forall>tu. key u = Some tu \<longrightarrow> tm \<le> tu) \<and>
            (\<forall>a ta. acc = Some (a, ta) \<longrightarrow> tm < ta)" by simp
      then have "?fromList (x # l) acc" by blast
      then show ?thesis by blast
    qed
  next
    case (Some st)
    show ?thesis
    proof (cases "acc = None \<or> (\<exists>a ta. acc = Some (a, ta) \<and> st < ta)")
      case replace: True
      with Some Cons.prems
      have r: "earliestBy key l (Some (x, st)) = Some (t, tm)"
        by (cases acc) auto
      from Cons.IH [OF r] show ?thesis
      proof
        assume "Some (x, st) = Some (t, tm) \<and> (\<forall>u \<in> set l. \<forall>tu. key u = Some tu \<longrightarrow> tm \<le> tu)"
        with Some replace have "x # l = [] @ t # l \<and> key t = Some tm \<and>
            (\<forall>u \<in> set []. \<forall>tu. key u = Some tu \<longrightarrow> tm < tu) \<and>
            (\<forall>u \<in> set l. \<forall>tu. key u = Some tu \<longrightarrow> tm \<le> tu) \<and>
            (\<forall>a ta. acc = Some (a, ta) \<longrightarrow> tm < ta)" by auto
        then have "?fromList (x # l) acc" by blast
        then show ?thesis by blast
      next
        assume "?fromList l (Some (x, st))"
        then obtain xs ys where *: "l = xs @ t # ys" "key t = Some tm"
          "\<forall>u \<in> set xs. \<forall>tu. key u = Some tu \<longrightarrow> tm < tu"
          "\<forall>u \<in> set ys. \<forall>tu. key u = Some tu \<longrightarrow> tm \<le> tu"
          "tm < st" by blast
        with Some replace have "x # l = (x # xs) @ t # ys \<and> key t = Some tm \<and>
            (\<forall>u \<in> set (x # xs). \<forall>tu. key u = Some tu \<longrightarrow> tm < tu) \<and>
            (\<forall>u \<in> set ys. \<forall>tu. key u = Some tu \<longrightarrow> tm \<le> tu) \<and>
            (\<forall>a ta. acc = Some (a, ta) \<longrightarrow> tm < ta)" by auto
        then have "?fromList (x # l) acc" by blast
        then show ?thesis by blast
      qed
    next
      case keep: False
      then obtain a ta where acc: "acc = Some (a, ta)" and ge: "ta \<le> st"
        by (cases acc) auto
      with Some Cons.prems have r: "earliestBy key l acc = Some (t, tm)" by simp
      from Cons.IH [OF r] show ?thesis
      proof
        assume "acc = Some (t, tm) \<and> (\<forall>u \<in> set l. \<forall>tu. key u = Some tu \<longrightarrow> tm \<le> tu)"
        with acc ge Some show ?thesis by auto
      next
        assume "?fromList l acc"
        then obtain xs ys where *: "l = xs @ t # ys" "key t = Some tm"
          "\<forall>u \<in> set xs. \<forall>tu. key u = Some tu \<longrightarrow> tm < tu"
          "\<forall>u \<in> set ys. \<forall>tu. key u = Some tu \<longrightarrow> tm \<le> tu"
          "\<forall>a ta. acc = Some (a, ta) \<longrightarrow> tm < ta" by blast
        with acc ge Some have "x # l = (x # xs) @ t # ys \<and> key t = Some tm \<and>
            (\<forall>u \<in> set (x # xs). \<forall>tu. key u = Some tu \<longrightarrow> tm < tu) \<and>
            (\<forall>u \<in> set ys. \<forall>tu. key u = Some tu \<longrightarrow> tm \<le> tu) \<and>
            (\<forall>a ta. acc = Some (a, ta) \<longrightarrow> tm < ta)" by auto
        then have "?fromList (x # l) acc" by blast
        then show ?thesis by blast
      qed
    qed
  qed
qed

lemma earliestBy_acc: "earliestBy key l (Some p) \<noteq> None"
proof (induction l arbitrary: p)
  case Nil
  show ?case by simp
next
  case (Cons x l)
  obtain a ta where p: "p = (a, ta)" by (cases p)
  show ?case using Cons.IH by (simp add: p split: option.splits)
qed

lemma earliestBy_None:
  "earliestBy key l None = None \<Longrightarrow> \<forall>u \<in> set l. key u = None"
proof (induction l)
  case Nil
  show ?case by simp
next
  case (Cons x l)
  show ?case
  proof (cases "key x")
    case None
    with Cons show ?thesis by simp
  next
    case (Some st)
    with Cons.prems have "earliestBy key l (Some (x, st)) = None" by simp
    with earliestBy_acc [of key l "(x, st)"] show ?thesis by simp
  qed
qed

lemma earliestWaitingTranscode_by:
  "earliestWaitingTranscode l acc = earliestBy transcodeKey l acc"
  by (induction l arbitrary: acc) (simp_all add: transcodeKey_def split: option.splits)

lemma earliestWaiting_by:
  "earliestWaiting parseTime l acc = earliestBy (downloadKey parseTime) l acc"
  by (induction l arbitrary: acc)
    (simp_all add: downloadKey_def startOf_def split: option.splits jval.splits)


lemma earliestBy_keep:
  "\<forall>u \<in> set ys. \<forall>tu. key u = Some tu \<longrightarrow> tm \<le> tu \<Longrightarrow>
   earliestBy key ys (Some (t, tm)) = Some (t, tm)"
  by (induction ys) (auto split: option.splits)

lemma earliestBy_first:
  assumes "key t = Some tm"
    and "\<forall>u \<in> set xs. \<forall>tu. key u = Some tu \<longrightarrow> tm < tu"
    and "\<forall>u \<in> set ys. \<forall>tu. key u = Some tu \<longrightarrow> tm \<le> tu"
    and "\<forall>a ta. acc = Some (a, ta) \<longrightarrow> tm < ta"
  shows "earliestBy key (xs @ t # ys) acc = Some (t, tm)"
  using assms(2,4)
proof (induction xs arbitrary: acc)
  case Nil
  with assms(1) earliestBy_keep [OF assms(3)] show ?case
    by (cases acc) auto
next
  case (Cons x xs)
  show ?case
  proof (cases "key x")
    case None
    with Cons show ?thesis by simp
  next
    case (Some st)
    with Cons.prems(1) have lt: "tm < st" by simp
    from Cons.prems(1) have xs: "\<forall>u \<in> set xs. \<forall>tu. key u = Some tu \<longrightarrow> tm < tu" by simp
    have new: "earliestBy key (xs @ t # ys) (Some (x, st)) = Some (t, tm)"
      using lt by (intro Cons.IH xs) simp
    have old: "earliestBy key (xs @ t # ys) acc = Some (t, tm)"
      by (intro Cons.IH xs Cons.prems(2))
    from Some new old show ?thesis
      by (cases acc) auto
  qed
qed

lemma earliestWaitingTranscode_first:
  assumes "Status t = ''waiting''"
    and "\<forall>u \<in> set xs. Status u = ''waiting'' \<longrightarrow> StartTime t < StartTime u"
    and "\<forall>u \<in> set ys. Status u = ''waiting'' \<longrightarrow> StartTime t \<le> StartTime u"
  shows "earliestWaitingTranscode (xs @ t # ys) None = Some (t, StartTime t)"
  unfolding earliestWaitingTranscode_by
  using assms by (intro earliestBy_first) (auto simp: transcodeKey_def split: if_splits)

lemma earliestWaiting_first:
  assumes "hasStatus ''waiting'' task" and "startOf parseTime task = Some tm"
    and "\<forall>u \<in> set xs. \<forall>tu. hasStatus ''waiting'' u \<and> startOf parseTime u = Some tu \<longrightarrow> tm < tu"
    and "\<forall>u \<in> set ys. \<forall>tu. hasStatus ''waiting'' u \<and> startOf parseTime u = Some tu \<longrightarrow> tm \<le> tu"
  shows "earliestWaiting parseTime (xs @ task # ys) None = Some (task, tm)"
  unfolding earliestWaiting_by
  using assms by (intro earliestBy_first) (auto simp: downloadKey_def split: if_splits)

lemma startup_parts:
  "fst (snd (startup parseTime launch launchT now nowT nowStart (Content l) ft))
     = snd (startupDownloads parseTime launch now (Content l))"
  "fst (startupDownloads parseTime launch now (Content l)) = None \<Longrightarrow>
   snd (snd (startup parseTime launch launchT now nowT nowStart (Content l) ft))
     = startupTranscodes launchT nowT nowStart ft"
  by (auto simp: startup_def split: prod.splits option.splits)

text \<open>
  Claim C7, amended. The search of \<open>startup\<close> selects, in each domain, a waiting task
  whose start time is the earliest among the waiting tasks of the list (for downloads:
  among those whose start time is a string that parses), and among several with that
  start time the first of the list; it selects nothing only when there is no such task.
  \<open>startup\<close> starts the task so selected from the demoted list: with the download store
  loaded, it writes the demoted list (if a task was demoted) and then what starting that
  task writes, in the download store and, unless the download part panics, in the
  transcode store. The promote-next functions, which run after a task has reached a
  terminal state, start the first waiting task of the list, whatever the start times
  are.
\<close>

theorem promotion_order:
  "(earliestWaitingTranscode k None = Some (t, tm) \<longrightarrow>
      (\<exists>xs ys. k = xs @ t # ys \<and> Status t = ''waiting'' \<and> tm = StartTime t \<and>
         (\<forall>u \<in> set xs. Status u = ''waiting'' \<longrightarrow> StartTime t < StartTime u) \<and>
         (\<forall>u \<in> set ys. Status u = ''waiting'' \<longrightarrow> StartTime t \<le> StartTime u))) \<and>
   (earliestWaitingTranscode k None = None \<longrightarrow> (\<forall>u \<in> set k. Status u \<noteq> ''waiting'')) \<and>
   (earliestWaiting parseTime l None = Some (task, tmd) \<longrightarrow>
      (\<exists>xs ys. l = xs @ task # ys \<and> hasStatus ''waiting'' task \<and>
         startOf parseTime task = Some tmd \<and>
         (\<forall>u \<in> set xs. \<forall>tu. hasStatus ''waiting'' u \<and> startOf parseTime u = Some tu \<longrightarrow> tmd < tu) \<and>
         (\<forall>u \<in> set ys. \<forall>tu. hasStatus ''waiting'' u \<and> startOf parseTime u = Some tu \<longrightarrow> tmd \<le> tu))) \<and>
   (earliestWaiting parseTime l None = None \<longrightarrow>
      (\<forall>u \<in> set l. hasStatus ''waiting'' u \<longrightarrow> startOf parseTime u = None)) \<and>
   (load f = Inr l \<and> \<not> list_ex (hasStatus ''downloading'') l \<and> l = ps @ p # qs \<and>
    hasStatus ''waiting'' p \<and> (\<forall>u \<in> set ps. \<not> hasStatus ''waiting'' u) \<longrightarrow>
      startNextWaitingTask launch f = startSelected launch f p) \<and>
   (load g = Inr k \<and> \<not> list_ex (\<lambda>t. Status t = ''transcoding'') k \<and> k = rs @ r # ss \<and>
    Status r = ''waiting'' \<and> (\<forall>u \<in> set rs. Status u \<noteq> ''waiting'') \<and> TaskID r \<noteq> [] \<longrightarrow>
      snd (startNextTranscodeTask launchT now g) =
        (case startTranscode launchT now g (TaskID r) of Inl e \<Rightarrow> [] | Inr w \<Rightarrow> [w])) \<and>
   (fst (demoteTranscodes nowR k0) = xt @ et # yt \<and> Status et = ''waiting'' \<and>
    (\<forall>u \<in> set xt. Status u = ''waiting'' \<longrightarrow> StartTime et < StartTime u) \<and>
    (\<forall>u \<in> set yt. Status u = ''waiting'' \<longrightarrow> StartTime et \<le> StartTime u) \<longrightarrow>
      startupTranscodes launchT nowR nowS (Content k0) =
        snd (demoteTranscodes nowR k0) @
        (case startTranscode launchT nowS
                (after (Content k0) (snd (demoteTranscodes nowR k0))) (TaskID et) of
           Inl e \<Rightarrow> [] | Inr w \<Rightarrow> [w])) \<and>
   (fst (demoteDownloads nowD l0) = xd @ ed # yd \<and> hasStatus ''waiting'' ed \<and>
    startOf parseTime ed = Some te \<and>
    (\<forall>u \<in> set xd. \<forall>tu. hasStatus ''waiting'' u \<and> startOf parseTime u = Some tu \<longrightarrow> te < tu) \<and>
    (\<forall>u \<in> set yd. \<forall>tu. hasStatus ''waiting'' u \<and> startOf parseTime u = Some tu \<longrightarrow> te \<le> tu) \<longrightarrow>
      startupDownloads parseTime launch nowD (Content l0) =
        (fst (startSelected launch (after (Content l0) (snd (demoteDownloads nowD l0))) ed),
         snd (demoteDownloads nowD l0) @
         snd (startSelected launch (after (Content l0) (snd (demoteDownloads nowD l0))) ed))) \<and>
   fst (snd (startup parseTime launch launchT nowD nowR nowS (Content l0) ft))
     = snd (startupDownloads parseTime launch nowD (Content l0)) \<and>
   (fst (startupDownloads parseTime launch nowD (Content l0)) = None \<longrightarrow>
      snd (snd (startup parseTime launch launchT nowD nowR nowS (Content l0) ft))
        = startupTranscodes launchT nowR nowS ft)"
proof (intro conjI impI)
  assume "earliestWaitingTranscode k None = Some (t, tm)"
  then have "earliestBy transcodeKey k None = Some (t, tm)"
    by (simp add: earliestWaitingTranscode_by)
  from earliestBy_Some [OF this]
  obtain xs ys where *: "k = xs @ t # ys" "transcodeKey t = Some tm"
    "\<forall>u \<in> set xs. \<forall>tu. transcodeKey u = Some tu \<longrightarrow> tm < tu"
    "\<forall>u \<in> set ys. \<forall>tu. transcodeKey u = Some tu \<longrightarrow> tm \<le> tu"
    by auto
  from *(2) have t: "Status t = ''waiting''" "tm = StartTime t"
    by (auto simp: transcodeKey_def split: if_splits)
  from *(3) t(2) have b: "\<forall>u \<in> set xs. Status u = ''waiting'' \<longrightarrow> StartTime t < StartTime u"
    by (simp add: transcodeKey_def)
  from *(4) t(2) have a: "\<forall>u \<in> set ys. Status u = ''waiting'' \<longrightarrow> StartTime t \<le> StartTime u"
    by (simp add: transcodeKey_def)
  from *(1) t a b
  show "\<exists>xs ys. k = xs @ t # ys \<and> Status t = ''waiting'' \<and> tm = StartTime t \<and>
         (\<forall>u \<in> set xs. Status u = ''waiting'' \<longrightarrow> StartTime t < StartTime u) \<and>
         (\<forall>u \<in> set ys. Status u = ''waiting'' \<longrightarrow> StartTime t \<le> StartTime u)"
    by blast
next
  assume "earliestWaitingTranscode k None = None"
  then have "earliestBy transcodeKey k None = None"
    by (simp add: earliestWaitingTranscode_by)
  from earliestBy_None [OF this]
  show "\<forall>u \<in> set k. Status u \<noteq> ''waiting''"
    by (auto simp: transcodeKey_def split: if_splits)
next
  assume "earliestWaiting parseTime l None = Some (task, tmd)"
  then have "earliestBy (downloadKey parseTime) l None = Some (task, tmd)"
    by (simp add: earliestWaiting_by)
  from earliestBy_Some [OF this]
  obtain xs ys where *: "l = xs @ task # ys" "downloadKey parseTime task = Some tmd"
    "\<forall>u \<in> set xs. \<forall>tu. downloadKey parseTime u = Some tu \<longrightarrow> tmd < tu"
    "\<forall>u \<in> set ys. \<forall>tu. downloadKey parseTime u = Some tu \<longrightarrow> tmd \<le> tu"
    by auto
  from *(2) have t: "hasStatus ''waiting'' task" "startOf parseTime task = Some tmd"
    by (auto simp: downloadKey_def split: if_splits)
  from *(3) have b: "\<forall>u \<in> set xs. \<forall>tu. hasStatus ''waiting'' u \<and> startOf parseTime u = Some tu
      \<longrightarrow> tmd < tu"
    by (simp add: downloadKey_def)
  from *(4) have a: "\<forall>u \<in> set ys. \<forall>tu. hasStatus ''waiting'' u \<and> startOf parseTime u = Some tu
      \<longrightarrow> tmd \<le> tu"
    by (simp add: downloadKey_def)
  from *(1) t a b
  show "\<exists>xs ys. l = xs @ task # ys \<and> hasStatus ''waiting'' task \<and>
         startOf parseTime task = Some tmd \<and>
         (\<forall>u \<in> set xs. \<forall>tu. hasStatus ''waiting'' u \<and> startOf parseTime u = Some tu \<longrightarrow> tmd < tu) \<and>
         (\<forall>u \<in> set ys. \<forall>tu. hasStatus ''waiting'' u \<and> startOf parseTime u = Some tu \<longrightarrow> tmd \<le> tu)"
    by blast
next
  assume "earliestWaiting parseTime l None = None"
  then have "earliestBy (downloadKey parseTime) l None = None"
    by (simp add: earliestWaiting_by)
  from earliestBy_None [OF this]
  show "\<forall>u \<in> set l. hasStatus ''waiting'' u \<longrightarrow> startOf parseTime u = None"
    by (auto simp: downloadKey_def split: if_splits)
next
  assume h: "load f = Inr l \<and> \<not> list_ex (hasStatus ''downloading'') l \<and> l = ps @ p # qs \<and>
    hasStatus ''waiting'' p \<and> (\<forall>u \<in> set ps. \<not> hasStatus ''waiting'' u)"
  then have fnd: "find (hasStatus ''waiting'') l = Some p"
    using find_first [of l ps p qs "hasStatus ''waiting''"] by blast
  from h have ld: "load f = Inr l" and na: "\<not> list_ex (hasStatus ''downloading'') l"
    by blast+
  show "startNextWaitingTask launch f = startSelected launch f p"
    by (simp add: startNextWaitingTask_def ld na fnd)
next
  assume h: "load g = Inr k \<and> \<not> list_ex (\<lambda>t. Status t = ''transcoding'') k \<and> k = rs @ r # ss \<and>
    Status r = ''waiting'' \<and> (\<forall>u \<in> set rs. Status u \<noteq> ''waiting'') \<and> TaskID r \<noteq> []"
  then have fnd: "find (\<lambda>t. Status t = ''waiting'') k = Some r"
    using find_first [of k rs r ss "\<lambda>t. Status t = ''waiting''"] by blast
  from h have ld: "load g = Inr k" and na: "\<not> list_ex (\<lambda>t. Status t = ''transcoding'') k"
    and id: "TaskID r \<noteq> []"
    by blast+
  show "snd (startNextTranscodeTask launchT now g) =
        (case startTranscode launchT now g (TaskID r) of Inl e \<Rightarrow> [] | Inr w \<Rightarrow> [w])"
    by (simp add: startNextTranscodeTask_def Let_def ld na fnd id split: sum.splits)
next
  assume h: "fst (demoteTranscodes nowR k0) = xt @ et # yt \<and> Status et = ''waiting'' \<and>
    (\<forall>u \<in> set xt. Status u = ''waiting'' \<longrightarrow> StartTime et < StartTime u) \<and>
    (\<forall>u \<in> set yt. Status u = ''waiting'' \<longrightarrow> StartTime et \<le> StartTime u)"
  then have "earliestWaitingTranscode (xt @ et # yt) None = Some (et, StartTime et)"
    by (intro earliestWaitingTranscode_first) simp_all
  with h have e: "earliestWaitingTranscode (fst (demoteTranscodes nowR k0)) None
      = Some (et, StartTime et)" by simp
  obtain kd w where d: "demoteTranscodes nowR k0 = (kd, w)" by (cases "demoteTranscodes nowR k0")
  from e d show "startupTranscodes launchT nowR nowS (Content k0) =
        snd (demoteTranscodes nowR k0) @
        (case startTranscode launchT nowS
                (after (Content k0) (snd (demoteTranscodes nowR k0))) (TaskID et) of
           Inl e \<Rightarrow> [] | Inr w \<Rightarrow> [w])"
    by (simp add: startupTranscodes_def split: sum.splits)
next
  assume h: "fst (demoteDownloads nowD l0) = xd @ ed # yd \<and> hasStatus ''waiting'' ed \<and>
    startOf parseTime ed = Some te \<and>
    (\<forall>u \<in> set xd. \<forall>tu. hasStatus ''waiting'' u \<and> startOf parseTime u = Some tu \<longrightarrow> te < tu) \<and>
    (\<forall>u \<in> set yd. \<forall>tu. hasStatus ''waiting'' u \<and> startOf parseTime u = Some tu \<longrightarrow> te \<le> tu)"
  then have "earliestWaiting parseTime (xd @ ed # yd) None = Some (ed, te)"
    by (intro earliestWaiting_first) simp_all
  with h have e: "earliestWaiting parseTime (fst (demoteDownloads nowD l0)) None = Some (ed, te)"
    by simp
  obtain ld w where d: "demoteDownloads nowD l0 = (ld, w)" by (cases "demoteDownloads nowD l0")
  from e d show "startupDownloads parseTime launch nowD (Content l0) =
        (fst (startSelected launch (after (Content l0) (snd (demoteDownloads nowD l0))) ed),
         snd (demoteDownloads nowD l0) @
         snd (startSelected launch (after (Content l0) (snd (demoteDownloads nowD l0))) ed))"
    by (simp add: startupDownloads_def split: prod.splits)
next
  show "fst (snd (startup parseTime launch launchT nowD nowR nowS (Content l0) ft))
     = snd (startupDownloads parseTime launch nowD (Content l0))"
    by (rule startup_parts(1))
next
  assume "fst (startupDownloads parseTime launch nowD (Content l0)) = None"
  then show "snd (snd (startup parseTime launch launchT nowD nowR nowS (Content l0) ft))
        = startupTranscodes launchT nowR nowS ft"
    by (rule startup_parts(2))
qed


theorem promotion_order_witness:
  "earliestWaitingTranscode [transcodeLate, transcodeEarly] None = Some (transcodeEarly, 5) \<and>
   Status transcodeEarly = ''waiting'' \<and>
   earliestWaiting parseDigits [downloadEarly, downloadLate] None = Some (downloadEarly, 5) \<and>
   hasStatus ''waiting'' downloadEarly \<and>
   load (Content [downloadEarly, downloadLate]) = Inr [downloadEarly, downloadLate] \<and>
   \<not> list_ex (hasStatus ''downloading'') [downloadEarly, downloadLate] \<and>
   startNextWaitingTask (Some 4242) (Content [downloadEarly, downloadLate])
     = startSelected (Some 4242) (Content [downloadEarly, downloadLate]) downloadEarly \<and>
   fst (demoteTranscodes 20 [transcodeLate, transcodeEarly]) = [transcodeLate] @ transcodeEarly # [] \<and>
   StartTime transcodeEarly < StartTime transcodeLate \<and>
   fst (demoteDownloads ''20'' [downloadEarly, downloadLate]) = [] @ downloadEarly # [downloadLate] \<and>
   startOf parseDigits downloadEarly = Some 5 \<and> startOf parseDigits downloadLate = Some 10 \<and>
   fields ''status'' (fst (snd (startup parseDigits (Some 4242) (Some 77) ''20'' 20 21
       (Content [downloadEarly, downloadLate]) (Content [transcodeLate, transcodeEarly]))))
     = [[Some (JStr ''downloading''), Some (JStr ''waiting'')]] \<and>
   statuses (snd (snd (startup parseDigits (Some 4242) (Some 77) ''20'' 20 21
       (Content [downloadEarly, downloadLate]) (Content [transcodeLate, transcodeEarly]))))
     = [[''waiting'', ''transcoding'']]"
proof -
  have st: "Status transcodeLate = ''waiting''" "Status transcodeEarly = ''waiting''"
    "StartTime transcodeLate = 10" "StartTime transcodeEarly = 5"
    "TaskID transcodeLate = ''transcode-2''" "TaskID transcodeEarly = ''transcode-3''"
    by (simp_all add: transcodeLate_def transcodeEarly_def newTranscodeTask_def)
  have h1: "earliestWaitingTranscode [transcodeLate, transcodeEarly] None = Some (transcodeEarly, 5)"
    by (simp add: st)
  have sd: "hasStatus ''waiting'' downloadLate" "hasStatus ''waiting'' downloadEarly"
    "\<not> hasStatus ''downloading'' downloadLate" "\<not> hasStatus ''downloading'' downloadEarly"
    "downloadLate ''startTime'' = Some (JStr ''10'')" "downloadEarly ''startTime'' = Some (JStr ''5'')"
    by (simp_all add: hasStatus_def downloadLate_def downloadEarly_def)
  have pd: "parseDigits ''10'' = Some 10" "parseDigits ''5'' = Some 5"
    by (simp_all add: parseDigits_def isDigit_def decVal_def digitVal_def)
  have so: "startOf parseDigits downloadEarly = Some 5" "startOf parseDigits downloadLate = Some 10"
    by (simp_all add: startOf_def sd pd)
  have h2: "earliestWaiting parseDigits [downloadEarly, downloadLate] None = Some (downloadEarly, 5)"
    by (simp add: sd pd)
  have h3: "load (Content [downloadEarly, downloadLate]) = Inr [downloadEarly, downloadLate]"
    by simp
  have h4: "\<not> list_ex (hasStatus ''downloading'') [downloadEarly, downloadLate]"
    by (simp add: sd)
  have dt: "demoteTranscodes 20 [transcodeLate, transcodeEarly] = ([transcodeLate, transcodeEarly], [])"
    by (simp add: demoteTranscodes_def demoteTranscode_def st)
  have dd: "demoteDownloads ''20'' [downloadEarly, downloadLate] = ([downloadEarly, downloadLate], [])"
    by (simp add: demoteDownloads_def demoteDownload_def sd)
  have h5: "fst (demoteTranscodes 20 [transcodeLate, transcodeEarly])
      = [transcodeLate] @ transcodeEarly # []"
    by (simp add: dt)
  have h6: "StartTime transcodeEarly < StartTime transcodeLate" by (simp add: st)
  have h7: "fst (demoteDownloads ''20'' [downloadEarly, downloadLate])
      = [] @ downloadEarly # [downloadLate]"
    by (simp add: dd)
  note T = promotion_order [where k = "[transcodeLate, transcodeEarly]" and t = transcodeEarly
      and tm = 5 and l = "[downloadEarly, downloadLate]" and parseTime = parseDigits
      and task = downloadEarly and tmd = 5 and f = "Content [downloadEarly, downloadLate]"
      and ps = "[]" and p = downloadEarly and qs = "[downloadLate]" and launch = "Some 4242"
      and launchT = "Some 77" and nowR = 20 and nowS = 21 and nowD = "''20''"
      and k0 = "[transcodeLate, transcodeEarly]" and xt = "[transcodeLate]"
      and et = transcodeEarly and yt = "[]"
      and l0 = "[downloadEarly, downloadLate]" and xd = "[]" and ed = downloadEarly
      and yd = "[downloadLate]" and te = 5
      and ft = "Content [transcodeLate, transcodeEarly]"]
  from T h1 have c1: "Status transcodeEarly = ''waiting''" by blast
  from T h2 have c2: "hasStatus ''waiting'' downloadEarly" by blast
  from T h3 h4 sd(2)
  have c3: "startNextWaitingTask (Some 4242) (Content [downloadEarly, downloadLate])
     = startSelected (Some 4242) (Content [downloadEarly, downloadLate]) downloadEarly"
    by simp
  from T h5 st h6
  have c4: "startupTranscodes (Some 77) 20 21 (Content [transcodeLate, transcodeEarly]) =
        snd (demoteTranscodes 20 [transcodeLate, transcodeEarly]) @
        (case startTranscode (Some 77) 21
                (after (Content [transcodeLate, transcodeEarly])
                   (snd (demoteTranscodes 20 [transcodeLate, transcodeEarly])))
                (TaskID transcodeEarly) of
           Inl e \<Rightarrow> [] | Inr w \<Rightarrow> [w])"
    by simp
  have c4': "statuses (startupTranscodes (Some 77) 20 21 (Content [transcodeLate, transcodeEarly]))
      = [[''waiting'', ''transcoding'']]"
    unfolding c4 by (simp add: dt after_def startTranscode_def st statuses_def)
  from T h7 sd(2) so
  have c5: "startupDownloads parseDigits (Some 4242) ''20'' (Content [downloadEarly, downloadLate]) =
        (fst (startSelected (Some 4242) (after (Content [downloadEarly, downloadLate])
                (snd (demoteDownloads ''20'' [downloadEarly, downloadLate]))) downloadEarly),
         snd (demoteDownloads ''20'' [downloadEarly, downloadLate]) @
         snd (startSelected (Some 4242) (after (Content [downloadEarly, downloadLate])
                (snd (demoteDownloads ''20'' [downloadEarly, downloadLate]))) downloadEarly))"
    by simp
  have ss: "startSelected (Some 4242) (Content [downloadEarly, downloadLate]) downloadEarly
      = (None, [[downloadEarly(''status'' \<mapsto> JStr ''downloading'', ''pid'' \<mapsto> JNum 4242),
                 downloadLate]])"
    by (simp add: startSelected_def startDownload_def isStr_def theStr_def hasTaskId_def
        downloadEarly_def downloadLate_def)
  have c5': "startupDownloads parseDigits (Some 4242) ''20'' (Content [downloadEarly, downloadLate])
      = (None, [[downloadEarly(''status'' \<mapsto> JStr ''downloading'', ''pid'' \<mapsto> JNum 4242),
                 downloadLate]])"
    unfolding c5 by (simp add: dd after_def ss)
  from T have "fst (snd (startup parseDigits (Some 4242) (Some 77) ''20'' 20 21
       (Content [downloadEarly, downloadLate]) (Content [transcodeLate, transcodeEarly])))
     = snd (startupDownloads parseDigits (Some 4242) ''20'' (Content [downloadEarly, downloadLate]))"
    by blast
  then have e6: "fst (snd (startup parseDigits (Some 4242) (Some 77) ''20'' 20 21
       (Content [downloadEarly, downloadLate]) (Content [transcodeLate, transcodeEarly])))
     = [[downloadEarly(''status'' \<mapsto> JStr ''downloading'', ''pid'' \<mapsto> JNum 4242), downloadLate]]"
    by (simp only: c5' snd_conv)
  have c6: "fields ''status'' (fst (snd (startup parseDigits (Some 4242) (Some 77) ''20'' 20 21
       (Content [downloadEarly, downloadLate]) (Content [transcodeLate, transcodeEarly]))))
     = [[Some (JStr ''downloading''), Some (JStr ''waiting'')]]"
    unfolding e6 by (simp add: fields_def field_def downloadLate_def)
  from T
  have "fst (startupDownloads parseDigits (Some 4242) ''20'' (Content [downloadEarly, downloadLate]))
      = None \<longrightarrow>
    snd (snd (startup parseDigits (Some 4242) (Some 77) ''20'' 20 21
       (Content [downloadEarly, downloadLate]) (Content [transcodeLate, transcodeEarly])))
     = startupTranscodes (Some 77) 20 21 (Content [transcodeLate, transcodeEarly])"
    by blast
  then have "snd (snd (startup parseDigits (Some 4242) (Some 77) ''20'' 20 21
       (Content [downloadEarly, downloadLate]) (Content [transcodeLate, transcodeEarly])))
     = startupTranscodes (Some 77) 20 21 (Content [transcodeLate, transcodeEarly])"
    by (simp only: c5' fst_conv simp_thms)
  with c4' have c7: "statuses (snd (snd (startup parseDigits (Some 4242) (Some 77) ''20'' 20 21
       (Content [downloadEarly, downloadLate]) (Content [transcodeLate, transcodeEarly]))))
     = [[''waiting'', ''transcoding'']]"
    by simp
  from h1 c1 h2 c2 h3 h4 c3 h5 h6 h7 so c6 c7 show ?thesis by (intro conjI)
qed

section \<open>Cancelling and querying\<close>

text \<open>
  Claim C8 as stated fails in both domains: cancelling a completed task succeeds and
  turns its status into cancelled, with a new end time.
\<close>

theorem cancel_overwrites_completed:
  "fst (CancelTranscode 9 ''transcode-1'' (Content [transcodeCompleted])) = None \<and>
   statuses (snd (snd (CancelTranscode 9 ''transcode-1'' (Content [transcodeCompleted]))))
     = [[''cancelled'']] \<and>
   Status transcodeCompleted = ''completed'' \<and>
   fst (CancelDownload ''9'' ''task-1'' (Content [downloadCompleted])) = None \<and>
   fields ''status'' (snd (snd (CancelDownload ''9'' ''task-1'' (Content [downloadCompleted]))))
     = [[Some (JStr ''cancelled'')]] \<and>
   fields ''endTime'' (snd (snd (CancelDownload ''9'' ''task-1'' (Content [downloadCompleted]))))
     = [[Some (JStr ''9'')]] \<and>
   field ''status'' downloadCompleted = Some (JStr ''completed'') \<and>
   field ''endTime'' downloadCompleted = Some (JStr ''4'')"
  by (simp add: CancelTranscode_def CancelDownload_def statuses_def fields_def field_def
      transcodeCompleted_def transcodeA_def newTranscodeTask_def downloadCompleted_def
      downloadA_def hasTaskId_def)

lemma updFirst_at:
  assumes "P t" and "\<forall>u \<in> set xs. \<not> P u"
  shows "updFirst P g (xs @ t # ys) = xs @ g t # ys"
  using assms by (induction xs) auto

lemma cancelLoop_at:
  assumes "hasTaskId taskId p" and "\<forall>u \<in> set xs. \<not> hasTaskId taskId u"
    and "\<not> hasStatus ''downloading'' p"
  shows "cancelLoop now taskId (xs @ p # ys) =
           (xs @ p(''status'' \<mapsto> JStr ''cancelled'', ''endTime'' \<mapsto> JStr now) # ys, True, [])"
  using assms by (induction xs) (auto simp: hasStatus_def Let_def)

lemma cancelLoop_absent:
  assumes "\<forall>u \<in> set l. \<not> hasTaskId taskId u"
  shows "cancelLoop now taskId l = (l, False, [])"
  using assms by (induction l) (auto simp: Let_def)

lemma find_absent: "(\<forall>u \<in> set l. \<not> P u) \<Longrightarrow> find P l = None"
  by (induction l) auto

text \<open>
  Claim C8, amended. Cancelling a task that is not active, so in particular one that is
  completed, failed or cancelled, succeeds in both domains, asks for no process to be
  killed, and sets the status of the first task with the id to cancelled and its end
  time to the time of the call; the other fields and the other tasks are left as they
  are. A task that was cancelled stays cancelled; a completed or failed task becomes
  cancelled.
\<close>

theorem cancel_sets_cancelled:
  "(load g = Inr (rs @ r # ss) \<and> TaskID r = taskID \<and> (\<forall>u \<in> set rs. TaskID u \<noteq> taskID) \<and>
    Status r \<noteq> ''transcoding'' \<longrightarrow>
      CancelTranscode now taskID g =
        (None, [], [rs @ r\<lparr>Status := ''cancelled'', EndTime := now\<rparr> # ss])) \<and>
   (load f = Inr (ps @ p # qs) \<and> hasTaskId taskId p \<and> (\<forall>u \<in> set ps. \<not> hasTaskId taskId u) \<and>
    \<not> hasStatus ''downloading'' p \<longrightarrow>
      CancelDownload nowD taskId f =
        (None, [], [ps @ p(''status'' \<mapsto> JStr ''cancelled'', ''endTime'' \<mapsto> JStr nowD) # qs]))"
proof (intro conjI impI)
  assume h: "load g = Inr (rs @ r # ss) \<and> TaskID r = taskID \<and>
    (\<forall>u \<in> set rs. TaskID u \<noteq> taskID) \<and> Status r \<noteq> ''transcoding''"
  then have ld: "load g = Inr (rs @ r # ss)" and id: "TaskID r = taskID"
    and first: "\<forall>u \<in> set rs. \<not> TaskID u = taskID" and st: "Status r \<noteq> ''transcoding''"
    by blast+
  have fnd: "find (\<lambda>t. TaskID t = taskID) (rs @ r # ss) = Some r"
    by (rule find_first [OF refl id first])
  have upd: "updFirst (\<lambda>t. TaskID t = taskID) (\<lambda>t. t\<lparr>Status := ''cancelled'', EndTime := now\<rparr>)
      (rs @ r # ss) = rs @ r\<lparr>Status := ''cancelled'', EndTime := now\<rparr> # ss"
    by (rule updFirst_at [OF id first])
  show "CancelTranscode now taskID g =
        (None, [], [rs @ r\<lparr>Status := ''cancelled'', EndTime := now\<rparr> # ss])"
    by (simp add: CancelTranscode_def ld fnd upd st)
next
  assume h: "load f = Inr (ps @ p # qs) \<and> hasTaskId taskId p \<and>
    (\<forall>u \<in> set ps. \<not> hasTaskId taskId u) \<and> \<not> hasStatus ''downloading'' p"
  then have ld: "load f = Inr (ps @ p # qs)" and id: "hasTaskId taskId p"
    and first: "\<forall>u \<in> set ps. \<not> hasTaskId taskId u" and st: "\<not> hasStatus ''downloading'' p"
    by blast+
  show "CancelDownload nowD taskId f =
        (None, [], [ps @ p(''status'' \<mapsto> JStr ''cancelled'', ''endTime'' \<mapsto> JStr nowD) # qs])"
    by (simp add: CancelDownload_def ld cancelLoop_at [OF id first st])
qed

theorem cancel_sets_cancelled_witness:
  "load (Content ([] @ transcodeCancelled # [])) = Inr ([] @ transcodeCancelled # []) \<and>
   TaskID transcodeCancelled = ''transcode-1'' \<and> Status transcodeCancelled \<noteq> ''transcoding'' \<and>
   load (Content ([] @ downloadCompleted # [])) = Inr ([] @ downloadCompleted # []) \<and>
   hasTaskId ''task-1'' downloadCompleted \<and> \<not> hasStatus ''downloading'' downloadCompleted \<and>
   statuses (snd (snd (CancelTranscode 9 ''transcode-1'' (Content ([] @ transcodeCancelled # [])))))
     = [[''cancelled'']] \<and>
   fst (CancelDownload ''9'' ''task-1'' (Content ([] @ downloadCompleted # []))) = None"
proof -
  have h1: "load (Content ([] @ transcodeCancelled # [])) = Inr ([] @ transcodeCancelled # [])"
    by simp
  have h2: "TaskID transcodeCancelled = ''transcode-1''"
    "Status transcodeCancelled \<noteq> ''transcoding''"
    by (simp_all add: transcodeCancelled_def transcodeA_def newTranscodeTask_def)
  have h3: "load (Content ([] @ downloadCompleted # [])) = Inr ([] @ downloadCompleted # [])"
    by simp
  have h4: "hasTaskId ''task-1'' downloadCompleted" "\<not> hasStatus ''downloading'' downloadCompleted"
    by (simp_all add: hasTaskId_def hasStatus_def downloadCompleted_def downloadA_def)
  note T = cancel_sets_cancelled [where g = "Content ([] @ transcodeCancelled # [])" and rs = "[]"
      and r = transcodeCancelled and ss = "[]" and taskID = "''transcode-1''" and now = 9
      and f = "Content ([] @ downloadCompleted # [])" and ps = "[]" and p = downloadCompleted
      and qs = "[]" and taskId = "''task-1''" and nowD = "''9''"]
  from T h1 h2 have "CancelTranscode 9 ''transcode-1'' (Content ([] @ transcodeCancelled # [])) =
      (None, [], [[] @ transcodeCancelled\<lparr>Status := ''cancelled'', EndTime := 9\<rparr> # []])"
    by simp
  then have c1: "statuses (snd (snd (CancelTranscode 9 ''transcode-1''
      (Content ([] @ transcodeCancelled # []))))) = [[''cancelled'']]"
    by (simp add: statuses_def)
  from T h3 h4 have "CancelDownload ''9'' ''task-1'' (Content ([] @ downloadCompleted # [])) =
      (None, [], [[] @ downloadCompleted(''status'' \<mapsto> JStr ''cancelled'',
         ''endTime'' \<mapsto> JStr ''9'') # []])"
    by simp
  then have c2: "fst (CancelDownload ''9'' ''task-1'' (Content ([] @ downloadCompleted # []))) = None"
    by simp
  from h1 h2 h3 h4 c1 c2 show ?thesis by (intro conjI)
qed

text \<open>
  Claim C9. When no task of the store has the given id (in particular when the store
  file cannot be loaded), \<open>CancelDownload\<close> and \<open>CancelTranscode\<close> return an error, ask for
  no process to be killed and write nothing, so the file is what it was; on a store that
  loads the error is that the task was not found.
\<close>

theorem cancel_unknown_id_changes_nothing:
  "((\<forall>u \<in> set (tasksOf g). TaskID u \<noteq> taskID) \<longrightarrow>
      (\<exists>e. CancelTranscode now taskID g = (Some e, [], [])) \<and>
      after g (snd (snd (CancelTranscode now taskID g))) = g \<and>
      (\<forall>k. load g = Inr k \<longrightarrow> fst (CancelTranscode now taskID g) = Some (TaskNotFound taskID))) \<and>
   ((\<forall>u \<in> set (tasksOf f). \<not> hasTaskId taskId u) \<longrightarrow>
      (\<exists>e. CancelDownload nowD taskId f = (Some e, [], [])) \<and>
      after f (snd (snd (CancelDownload nowD taskId f))) = f \<and>
      (\<forall>l. load f = Inr l \<longrightarrow> fst (CancelDownload nowD taskId f) = Some (TaskNotFound taskId)))"
proof (intro conjI impI allI)
  assume h: "\<forall>u \<in> set (tasksOf g). TaskID u \<noteq> taskID"
  have r: "CancelTranscode now taskID g =
      (case load g of Inl e \<Rightarrow> (Some e, [], []) | Inr k \<Rightarrow> (Some (TaskNotFound taskID), [], []))"
  proof (cases "load g")
    case (Inl e)
    then show ?thesis by (simp add: CancelTranscode_def)
  next
    case (Inr k)
    with h have "find (\<lambda>t. TaskID t = taskID) k = None"
      by (intro find_absent) (simp add: tasksOf_def)
    with Inr show ?thesis by (simp add: CancelTranscode_def)
  qed
  show "\<exists>e. CancelTranscode now taskID g = (Some e, [], [])"
    unfolding r by (cases "load g") simp_all
  show "after g (snd (snd (CancelTranscode now taskID g))) = g"
    unfolding r by (cases "load g") (simp_all add: after_def)
  fix k assume "load g = Inr k"
  then show "fst (CancelTranscode now taskID g) = Some (TaskNotFound taskID)"
    unfolding r by simp
next
  assume h: "\<forall>u \<in> set (tasksOf f). \<not> hasTaskId taskId u"
  have r: "CancelDownload nowD taskId f =
      (case load f of Inl e \<Rightarrow> (Some e, [], []) | Inr l \<Rightarrow> (Some (TaskNotFound taskId), [], []))"
  proof (cases "load f")
    case (Inl e)
    then show ?thesis by (simp add: CancelDownload_def)
  next
    case (Inr l)
    with h have "cancelLoop nowD taskId l = (l, False, [])"
      by (intro cancelLoop_absent) (simp add: tasksOf_def)
    with Inr show ?thesis by (simp add: CancelDownload_def)
  qed
  show "\<exists>e. CancelDownload nowD taskId f = (Some e, [], [])"
    unfolding r by (cases "load f") simp_all
  show "after f (snd (snd (CancelDownload nowD taskId f))) = f"
    unfolding r by (cases "load f") (simp_all add: after_def)
  fix l assume "load f = Inr l"
  then show "fst (CancelDownload nowD taskId f) = Some (TaskNotFound taskId)"
    unfolding r by simp
qed

theorem cancel_unknown_id_changes_nothing_witness:
  "map TaskID (tasksOf (Content [transcodeRunning])) = [''transcode-1''] \<and>
   map (field ''taskId'') (tasksOf (Content [downloadRunning])) = [Some (JStr ''task-1'')] \<and>
   CancelTranscode 9 ''transcode-404'' (Content [transcodeRunning])
     = (Some (TaskNotFound ''transcode-404''), [], []) \<and>
   CancelDownload ''9'' ''task-404'' (Content [downloadRunning])
     = (Some (TaskNotFound ''task-404''), [], [])"
proof -
  have h1: "\<forall>u \<in> set (tasksOf (Content [transcodeRunning])). TaskID u \<noteq> ''transcode-404''"
    by (simp add: tasksOf_def transcodeRunning_def transcodeA_def newTranscodeTask_def)
  have h2: "\<forall>u \<in> set (tasksOf (Content [downloadRunning])). \<not> hasTaskId ''task-404'' u"
    by (simp add: tasksOf_def hasTaskId_def downloadRunning_def downloadA_def)
  note T = cancel_unknown_id_changes_nothing [where g = "Content [transcodeRunning]"
      and taskID = "''transcode-404''" and now = 9 and f = "Content [downloadRunning]"
      and taskId = "''task-404''" and nowD = "''9''"]
  from T h1 obtain e where e: "CancelTranscode 9 ''transcode-404'' (Content [transcodeRunning])
      = (Some e, [], [])"
    and "fst (CancelTranscode 9 ''transcode-404'' (Content [transcodeRunning]))
      = Some (TaskNotFound ''transcode-404'')"
    by auto
  then have c1: "CancelTranscode 9 ''transcode-404'' (Content [transcodeRunning])
     = (Some (TaskNotFound ''transcode-404''), [], [])" by simp
  from T h2 obtain e' where e': "CancelDownload ''9'' ''task-404'' (Content [downloadRunning])
      = (Some e', [], [])"
    and "fst (CancelDownload ''9'' ''task-404'' (Content [downloadRunning]))
      = Some (TaskNotFound ''task-404'')"
    by auto
  then have c2: "CancelDownload ''9'' ''task-404'' (Content [downloadRunning])
     = (Some (TaskNotFound ''task-404''), [], [])" by simp
  have i1: "map TaskID (tasksOf (Content [transcodeRunning])) = [''transcode-1'']"
    by (simp add: tasksOf_def transcodeRunning_def transcodeA_def newTranscodeTask_def)
  have i2: "map (field ''taskId'') (tasksOf (Content [downloadRunning])) = [Some (JStr ''task-1'')]"
    by (simp add: tasksOf_def field_def downloadRunning_def downloadA_def)
  from i1 i2 c1 c2 show ?thesis by (intro conjI)
qed

text \<open>
  Claim C10. \<open>GetTranscodeStatus\<close> never returns an error. When the store file is
  missing, unreadable or undecodable the text is the encoding of the empty task list;
  with an empty task id on a store that loads it is the encoding of all the tasks (of
  the empty list should that encoding fail); with a task id that no task has it is
  \<open>{}\<close>.
\<close>

theorem GetTranscodeStatus_never_fails:
  "snd (GetTranscodeStatus marshalTasks marshalTask taskID f) = None \<and>
   (f = Missing \<or> f = Unreadable \<or> f = Undecodable \<longrightarrow>
      GetTranscodeStatus marshalTasks marshalTask taskID f = (emptyTasks marshalTasks, None)) \<and>
   (f = Content l \<longrightarrow>
      GetTranscodeStatus marshalTasks marshalTask [] f =
        (case marshalTasks l of Some jsonData \<Rightarrow> jsonData | None \<Rightarrow> emptyTasks marshalTasks, None)) \<and>
   (f = Content l \<and> taskID \<noteq> [] \<and> (\<forall>t \<in> set l. TaskID t \<noteq> taskID) \<longrightarrow>
      GetTranscodeStatus marshalTasks marshalTask taskID f = (''{}'', None))"
proof (intro conjI impI)
  show "snd (GetTranscodeStatus marshalTasks marshalTask taskID f) = None"
    by (simp add: GetTranscodeStatus_def split: sum.splits option.splits)
  { assume "f = Missing \<or> f = Unreadable \<or> f = Undecodable"
    then show "GetTranscodeStatus marshalTasks marshalTask taskID f = (emptyTasks marshalTasks, None)"
      by (auto simp: GetTranscodeStatus_def) }
  { assume "f = Content l"
    then show "GetTranscodeStatus marshalTasks marshalTask [] f =
        (case marshalTasks l of Some jsonData \<Rightarrow> jsonData | None \<Rightarrow> emptyTasks marshalTasks, None)"
      by (simp add: GetTranscodeStatus_def split: option.splits) }
  { assume h: "f = Content l \<and> taskID \<noteq> [] \<and> (\<forall>t \<in> set l. TaskID t \<noteq> taskID)"
    then have "find (\<lambda>t. TaskID t = taskID) l = None"
      by (intro find_absent) simp
    with h show "GetTranscodeStatus marshalTasks marshalTask taskID f = (''{}'', None)"
      by (simp add: GetTranscodeStatus_def) }
qed

theorem GetTranscodeStatus_never_fails_witness:
  "GetTranscodeStatus idsJson idJson ''transcode-1'' Missing = (''{tasks:[]}'', None) \<and>
   GetTranscodeStatus idsJson idJson [] (Content [transcodeRunning])
     = (''{tasks:[transcode-1]}'', None) \<and>
   ''transcode-404'' \<noteq> [] \<and> map TaskID [transcodeRunning] = [''transcode-1''] \<and>
   GetTranscodeStatus idsJson idJson ''transcode-404'' (Content [transcodeRunning]) = (''{}'', None)"
proof -
  have id: "TaskID transcodeRunning = ''transcode-1''"
    by (simp add: transcodeRunning_def transcodeA_def newTranscodeTask_def)
  have h: "\<forall>t \<in> set [transcodeRunning]. TaskID t \<noteq> ''transcode-404''"
    by (simp add: id)
  note T = GetTranscodeStatus_never_fails [where marshalTasks = idsJson and marshalTask = idJson]
  from T [where f = Missing and taskID = "''transcode-1''"]
  have c1: "GetTranscodeStatus idsJson idJson ''transcode-1'' Missing = (''{tasks:[]}'', None)"
    by (simp add: emptyTasks_def idsJson_def)
  from T [where f = "Content [transcodeRunning]" and l = "[transcodeRunning]"]
  have c2: "GetTranscodeStatus idsJson idJson [] (Content [transcodeRunning])
     = (''{tasks:[transcode-1]}'', None)"
    by (simp add: idsJson_def id)
  from T [where f = "Content [transcodeRunning]" and l = "[transcodeRunning]"
      and taskID = "''transcode-404''"] h
  have c3: "GetTranscodeStatus idsJson idJson ''transcode-404'' (Content [transcodeRunning])
     = (''{}'', None)"
    by simp
  from c1 c2 c3 show ?thesis by (simp add: id)
qed

end
